theory Spec2Isabelle
  imports Complex_Main "HOL-Library.Log_Nat"
begin

section \<open>JavaScript numbers\<close>

text \<open>
  Every JavaScript number is an IEEE-754 binary64 value. A finite one is a rational, and the
  result of an arithmetic operation is the exact rational result rounded to the nearest
  value with a 53-bit significand, ties to the even significand. \<open>expo x\<close> is the binary
  exponent of a nonzero \<open>x\<close> (the \<open>e\<close> with \<open>2^e \<le> |x| < 2^(e+1)\<close>), read off the bit
  lengths of numerator and denominator.
\<close>

definition expo :: "rat \<Rightarrow> int" where
  "expo x = (case quotient_of \<bar>x\<bar> of (p, q) \<Rightarrow>
     (let e0 = bitlen p - bitlen q in if 2 powi e0 \<le> \<bar>x\<bar> then e0 else e0 - 1))"

definition round_even :: "rat \<Rightarrow> int" where
  "round_even t = (let f = \<lfloor>t\<rfloor>; r = t - of_int f in
     if r < 1/2 then f else if 1/2 < r then f + 1 else if even f then f else f + 1)"

text \<open>
  Rounding to binary64 with the exponent unbounded above: below \<open>2^-1022\<close> the values are
  subnormal and the spacing stays \<open>2^-1074\<close>; elsewhere the spacing is \<open>2^(e-52)\<close>.
\<close>

definition round_double :: "rat \<Rightarrow> rat" where
  "round_double x = (if x = 0 then 0 else
     (let e = (if \<bar>x\<bar> < 2 powi (-1022) then -1022 else expo x);
          u = 2 powi (e - 52)
      in of_int (round_even (x / u)) * u))"

text \<open>The largest finite binary64 value; a rounded result beyond it is an infinity.\<close>

definition double_max :: rat where
  "double_max = 2 ^ 1024 - 2 ^ 971"

datatype number = Finite rat | PosInfinity | NegInfinity

definition overflow :: "rat \<Rightarrow> number" where
  "overflow r = (if double_max < r then PosInfinity
                 else if r < - double_max then NegInfinity else Finite r)"

text \<open>
  \<open>Math.round(x)\<close>: the integer closest to \<open>x\<close>; of two equally close integers, the one
  closer to plus infinity.
\<close>

definition Math_round :: "rat \<Rightarrow> int" where
  "Math_round x = \<lfloor>x + 1/2\<rfloor>"

section \<open>UnitConverter: \<open>satoshisToBTC\<close> and \<open>btcToSatoshis\<close>\<close>

text \<open>
  \<open>satoshisToBTC(satoshis) { return satoshis / 100000000; }\<close>. The quotient of a finite
  double by \<open>10^8\<close> is smaller in magnitude than the double, so it never overflows.
\<close>

definition satoshisToBTC :: "rat \<Rightarrow> rat" where
  "satoshisToBTC satoshis = round_double (satoshis / 100000000)"

text \<open>\<open>btcToSatoshis(btc) { return Math.round(btc * 100000000); }\<close>\<close>

definition btcToSatoshis :: "rat \<Rightarrow> number" where
  "btcToSatoshis btc =
     (case overflow (round_double (btc * 100000000)) of
        Finite p \<Rightarrow> Finite (of_int (Math_round p))
      | PosInfinity \<Rightarrow> PosInfinity
      | NegInfinity \<Rightarrow> NegInfinity)"

text \<open>
  The rounding the specification names for \<open>toBaseUnit\<close>, in its own words: to the nearest
  integer, a half going away from zero.
\<close>

definition round_half_away_from_zero :: "rat \<Rightarrow> int" where
  "round_half_away_from_zero x = (if 0 \<le> x then \<lfloor>x + 1/2\<rfloor> else - \<lfloor>- x + 1/2\<rfloor>)"

section \<open>Data model\<close>

subsection \<open>What the explorer returns\<close>

text \<open>
  The parsed responses of the four endpoints, with the fields the code reads. A field that
  may be \<open>null\<close> or absent is an option. Amounts and heights are integers of the ledger,
  all far inside the range where doubles are exact.
\<close>

record prev_out =
  po_addr :: "string option"
  po_value :: int

record tx_input =
  in_prev_out :: "prev_out option"

record tx_output =
  out_addr :: "string option"
  out_value :: int

record tx =
  tx_hash :: string
  tx_block_height :: "int option"
  tx_time :: int
  tx_fee :: "int option"
  tx_inputs :: "tx_input list"
  tx_out :: "tx_output list"

record balance_entry =
  final_balance :: int
  total_received :: int
  total_sent :: int
  n_tx :: int

record address_info =
  ai_balance :: balance_entry
  ai_txs :: "tx list option"

record multi_address_info =
  mi_addresses :: "string list"
  mi_txs :: "tx list option"

record latest_block =
  height :: int
  block_hash :: string
  block_time :: int

subsection \<open>What a route sends\<close>

datatype json = JNull | JBool bool | JNum rat | JStr string
  | JArr "json list" | JObj "(string \<times> json) list"

fun get_field :: "string \<Rightarrow> json \<Rightarrow> json option" where
  "get_field k (JObj kvs) = map_of kvs k"
| "get_field k _ = None"

fun elements :: "json \<Rightarrow> json list" where
  "elements (JArr xs) = xs"
| "elements _ = []"

record response =
  resp_status :: nat
  resp_body :: json

text \<open>JavaScript truthiness of a nullable number: \<open>null\<close>, \<open>undefined\<close> and \<open>0\<close> are falsy.\<close>

definition truthy :: "int option \<Rightarrow> bool" where
  "truthy v = (case v of None \<Rightarrow> False | Some n \<Rightarrow> n \<noteq> 0)"

section \<open>LedgerClient: \<open>blockchainService\<close>\<close>

text \<open>
  The requests sent to the explorer, and the explorer itself: for the request issued after
  \<open>n\<close> earlier ones it gives the parsed data or the message of the error that axios raises
  (timeout, non-2xx status, transport failure). The state threaded through every operation
  is the list of requests issued so far.
\<close>

datatype request =
    RawAddr string int int
  | MultiAddr string int int
  | Balance string
  | LatestBlock

record upstream =
  rawaddr :: "nat \<Rightarrow> string \<Rightarrow> int \<Rightarrow> int \<Rightarrow> string + address_info"
  multiaddr :: "nat \<Rightarrow> string \<Rightarrow> int \<Rightarrow> int \<Rightarrow> string + multi_address_info"
  balance :: "nat \<Rightarrow> string \<Rightarrow> string + (string \<rightharpoonup> balance_entry)"
  latestblock :: "nat \<Rightarrow> string + latest_block"

text \<open>\<open>addresses.join('|')\<close>\<close>

fun join_bar :: "string list \<Rightarrow> string" where
  "join_bar [] = []"
| "join_bar [a] = a"
| "join_bar (a # b # rest) = a @ ''|'' @ join_bar (b # rest)"

definition getAddressInfo ::
  "upstream \<Rightarrow> request list \<Rightarrow> string \<Rightarrow> int \<Rightarrow> int \<Rightarrow> (string + address_info) \<times> request list" where
  "getAddressInfo up reqs address limit offset =
     ((case rawaddr up (length reqs) address (min limit 50) offset of
         Inl message \<Rightarrow> Inl (''Failed to fetch address information: '' @ message)
       | Inr data \<Rightarrow> Inr data),
      reqs @ [RawAddr address (min limit 50) offset])"

definition getMultipleBalances ::
  "upstream \<Rightarrow> request list \<Rightarrow> string list
     \<Rightarrow> (string + (string \<rightharpoonup> balance_entry)) \<times> request list" where
  "getMultipleBalances up reqs addresses =
     (if addresses = [] then (Inr Map.empty, reqs)
      else
        ((case balance up (length reqs) (join_bar addresses) of
            Inl message \<Rightarrow> Inl (''Failed to fetch balances: '' @ message)
          | Inr data \<Rightarrow> Inr data),
         reqs @ [Balance (join_bar addresses)]))"

definition getMultipleAddressInfo ::
  "upstream \<Rightarrow> request list \<Rightarrow> string list \<Rightarrow> int \<Rightarrow> int
     \<Rightarrow> (string + multi_address_info) \<times> request list" where
  "getMultipleAddressInfo up reqs addresses limit offset =
     (if addresses = [] then (Inr \<lparr>mi_addresses = [], mi_txs = Some []\<rparr>, reqs)
      else
        ((case multiaddr up (length reqs) (join_bar addresses) (min limit 100) offset of
            Inl message \<Rightarrow> Inl (''Failed to fetch multiple address information: '' @ message)
          | Inr data \<Rightarrow> Inr data),
         reqs @ [MultiAddr (join_bar addresses) (min limit 100) offset]))"

definition getLatestBlock ::
  "upstream \<Rightarrow> request list \<Rightarrow> (string + latest_block) \<times> request list" where
  "getLatestBlock up reqs =
     ((case latestblock up (length reqs) of
         Inl message \<Rightarrow> Inl (''Failed to fetch latest block: '' @ message)
       | Inr data \<Rightarrow> Inr data),
      reqs @ [LatestBlock])"

text \<open>
  \<open>calculateConfirmations\<close> catches whatever \<open>getLatestBlock\<close> throws and returns 0 then.
\<close>

definition calculateConfirmations ::
  "upstream \<Rightarrow> request list \<Rightarrow> int \<Rightarrow> int \<times> request list" where
  "calculateConfirmations up reqs blockHeight =
     (case getLatestBlock up reqs of
        (Inr latestBlock, reqs') \<Rightarrow> (max 0 (height latestBlock - blockHeight + 1), reqs')
      | (Inl error, reqs') \<Rightarrow> (0, reqs'))"

text \<open>An explorer with nothing to say, for the examples: every request fails.\<close>

definition explorer_down :: upstream where
  "explorer_down = \<lparr>rawaddr = (\<lambda>n a l off. Inl ''timeout''),
     multiaddr = (\<lambda>n a l off. Inl ''timeout''), balance = (\<lambda>n a. Inl ''timeout''),
     latestblock = (\<lambda>n. Inl ''timeout'')\<rparr>"

section \<open>AddressRepository: \<open>db.js\<close>\<close>

text \<open>
  The routes read the repository through two queries. What SQLite answers is a parameter:
  the rows of the user (\<open>getUserAddresses\<close>), the row of one address or none
  (\<open>getAddressByUserAndAddress\<close>), or the message of the error the promise is rejected with.
\<close>

record address_record =
  ar_address :: string
  ar_label :: "string option"

record db =
  getUserAddresses :: "string \<Rightarrow> string + address_record list"
  getAddressByUserAndAddress :: "string \<Rightarrow> string \<Rightarrow> string + address_record option"

section \<open>Aggregator: the routes of \<open>wallets.js\<close> and \<open>sync.js\<close>\<close>

definition json_int :: "int \<Rightarrow> json" where
  "json_int n = JNum (of_int n)"

definition json_opt_int :: "int option \<Rightarrow> json" where
  "json_opt_int v = (case v of None \<Rightarrow> JNull | Some n \<Rightarrow> JNum (of_int n))"

definition json_opt_str :: "string option \<Rightarrow> json" where
  "json_opt_str v = (case v of None \<Rightarrow> JNull | Some s \<Rightarrow> JStr s)"

text \<open>\<open>fee: tx.fee ? blockchainService.satoshisToBTC(tx.fee) : 0\<close>\<close>

definition format_fee :: "int option \<Rightarrow> json" where
  "format_fee fee = (case fee of None \<Rightarrow> JNum 0
     | Some f \<Rightarrow> if f = 0 then JNum 0 else JNum (satoshisToBTC (of_int f)))"

definition format_input :: "tx_input \<Rightarrow> json" where
  "format_input input = JObj [(''prev_out'',
     (case in_prev_out input of
        None \<Rightarrow> JNull
      | Some po \<Rightarrow> JObj [(''addr'', json_opt_str (po_addr po)),
                        (''value'', JNum (satoshisToBTC (of_int (po_value po))))]))]"

definition format_output :: "tx_output \<Rightarrow> json" where
  "format_output output = JObj [(''addr'', json_opt_str (out_addr output)),
     (''value'', JNum (satoshisToBTC (of_int (out_value output))))]"

text \<open>
  The callback of \<open>wallets.js\<close> (lines 251-267 and 317-333), one transaction:
  \<open>confirmations: tx.block_height ? await calculateConfirmations(tx.block_height) : 0\<close>.
\<close>

definition formatTransaction :: "upstream \<Rightarrow> request list \<Rightarrow> tx \<Rightarrow> json \<times> request list" where
  "formatTransaction up reqs t =
     (case (case tx_block_height t of
              None \<Rightarrow> (0, reqs)
            | Some h \<Rightarrow> if h = 0 then (0, reqs) else calculateConfirmations up reqs h) of
        (confirmations, reqs') \<Rightarrow>
          (JObj [(''hash'', JStr (tx_hash t)),
                 (''block_height'', json_opt_int (tx_block_height t)),
                 (''time'', json_int (tx_time t)),
                 (''fee'', format_fee (tx_fee t)),
                 (''confirmations'', json_int confirmations),
                 (''inputs'', JArr (map format_input (tx_inputs t))),
                 (''out'', JArr (map format_output (tx_out t)))],
           reqs'))"

text \<open>
  \<open>await Promise.all(txs.map(async tx => ...))\<close>: every callback runs up to its request
  before the next one starts, so the requests go out in the order of the list.
\<close>

fun formattedTransactions ::
  "upstream \<Rightarrow> request list \<Rightarrow> tx list \<Rightarrow> json list \<times> request list" where
  "formattedTransactions up reqs [] = ([], reqs)"
| "formattedTransactions up reqs (t # ts) =
     (case formatTransaction up reqs t of
        (j, reqs') \<Rightarrow>
          (case formattedTransactions up reqs' ts of
             (js, reqs'') \<Rightarrow> (j # js, reqs'')))"

text \<open>The callback of \<open>sync.js\<close> (lines 53-68 and 126-141): no \<open>confirmations\<close>.\<close>

definition syncTransaction :: "tx \<Rightarrow> json" where
  "syncTransaction t =
     JObj [(''hash'', JStr (tx_hash t)),
           (''block_height'', json_opt_int (tx_block_height t)),
           (''time'', json_int (tx_time t)),
           (''fee'', format_fee (tx_fee t)),
           (''inputs'', JArr (map format_input (tx_inputs t))),
           (''out'', JArr (map format_output (tx_out t)))]"

definition balance_json :: "balance_entry \<Rightarrow> json" where
  "balance_json b =
     JObj [(''final_balance'', JNum (satoshisToBTC (of_int (final_balance b)))),
           (''total_received'', JNum (satoshisToBTC (of_int (total_received b)))),
           (''total_sent'', JNum (satoshisToBTC (of_int (total_sent b)))),
           (''n_tx'', json_int (n_tx b))]"

definition ok_response :: "json \<Rightarrow> response" where
  "ok_response d = \<lparr>resp_status = 200,
     resp_body = JObj [(''success'', JBool True), (''data'', d)]\<rparr>"

definition error_response :: "nat \<Rightarrow> string \<Rightarrow> response" where
  "error_response code message = \<lparr>resp_status = code,
     resp_body = JObj [(''success'', JBool False), (''error'', JStr message)]\<rparr>"

text \<open>
  \<open>GET /api/addresses/:address/transactions\<close> (\<open>wallets.js\<close>), after \<open>getUserId\<close> has
  put the user id on the request; \<open>limit\<close> and \<open>offset\<close> are the parsed query values.
  Every error caught by the route is answered with status 500. For a number,
  \<open>addressInfo.n_tx || 0\<close> is the number itself.
\<close>

definition address_transactions ::
  "db \<Rightarrow> upstream \<Rightarrow> request list \<Rightarrow> string \<Rightarrow> string \<Rightarrow> int \<Rightarrow> int
     \<Rightarrow> response \<times> request list" where
  "address_transactions d up reqs userId address limit offset =
     (case getAddressByUserAndAddress d userId address of
        Inl error \<Rightarrow> (error_response 500 ''Failed to fetch address transactions'', reqs)
      | Inr None \<Rightarrow> (error_response 404 ''Address not found for this user'', reqs)
      | Inr (Some addressRecord) \<Rightarrow>
          (case getAddressInfo up reqs address limit offset of
             (Inl error, reqs1) \<Rightarrow>
               (error_response 500 ''Failed to fetch address transactions'', reqs1)
           | (Inr addressInfo, reqs1) \<Rightarrow>
               (case (case ai_txs addressInfo of
                        None \<Rightarrow> ([], reqs1)
                      | Some txs \<Rightarrow> formattedTransactions up reqs1 txs) of
                  (formatted, reqs2) \<Rightarrow>
                    (ok_response (JObj
                       [(''address'', JStr address),
                        (''total_transactions'', json_int (n_tx (ai_balance addressInfo))),
                        (''transactions'', JArr formatted)]),
                     reqs2))))"

text \<open>\<open>GET /api/addresses/user/transactions\<close> (\<open>wallets.js\<close>)\<close>

definition user_transactions ::
  "db \<Rightarrow> upstream \<Rightarrow> request list \<Rightarrow> string \<Rightarrow> int \<Rightarrow> int \<Rightarrow> response \<times> request list" where
  "user_transactions d up reqs userId limit offset =
     (case getUserAddresses d userId of
        Inl error \<Rightarrow> (error_response 500 ''Failed to fetch user transactions'', reqs)
      | Inr addresses \<Rightarrow>
          if length addresses = 0 then
            (ok_response (JObj [(''user_id'', JStr userId), (''total_addresses'', json_int 0),
                                (''transactions'', JArr [])]), reqs)
          else
            (case getMultipleAddressInfo up reqs (map ar_address addresses) limit offset of
               (Inl error, reqs1) \<Rightarrow>
                 (error_response 500 ''Failed to fetch user transactions'', reqs1)
             | (Inr multiAddressInfo, reqs1) \<Rightarrow>
                 (case (case mi_txs multiAddressInfo of
                          None \<Rightarrow> ([], reqs1)
                        | Some txs \<Rightarrow> formattedTransactions up reqs1 txs) of
                    (formatted, reqs2) \<Rightarrow>
                      (ok_response (JObj
                         [(''user_id'', JStr userId),
                          (''total_addresses'', json_int (int (length addresses))),
                          (''transactions'', JArr formatted)]),
                       reqs2))))"

text \<open>
  \<open>GET /api/sync/address/:address\<close> (\<open>sync.js\<close>); \<open>now\<close> is \<open>new Date().toISOString()\<close>.
\<close>

definition sync_address ::
  "db \<Rightarrow> upstream \<Rightarrow> request list \<Rightarrow> string \<Rightarrow> string \<Rightarrow> string \<Rightarrow> int \<Rightarrow> int
     \<Rightarrow> response \<times> request list" where
  "sync_address d up reqs now userId address limit offset =
     (case getAddressByUserAndAddress d userId address of
        Inl error \<Rightarrow> (error_response 500 (''Failed to fetch address data: '' @ error), reqs)
      | Inr None \<Rightarrow> (error_response 404 ''Address not found for this user'', reqs)
      | Inr (Some addressRecord) \<Rightarrow>
          (case getAddressInfo up reqs address limit offset of
             (Inl error, reqs1) \<Rightarrow>
               (error_response 500 (''Failed to fetch address data: '' @ error), reqs1)
           | (Inr addressInfo, reqs1) \<Rightarrow>
               (ok_response (JObj
                  [(''address'', JStr address),
                   (''user_id'', JStr userId),
                   (''label'', json_opt_str (ar_label addressRecord)),
                   (''balance'', balance_json (ai_balance addressInfo)),
                   (''transactions'',
                      (case ai_txs addressInfo of
                         None \<Rightarrow> JArr []
                       | Some txs \<Rightarrow> JArr (map syncTransaction txs))),
                   (''fetched_at'', JStr now)]),
                reqs1)))"

text \<open>
  The entry of one stored address in the balance views:
  \<open>balance: balance ? { ... } : null\<close> with \<open>balance = balances[addressRecord.address]\<close>.
\<close>

definition balance_result :: "(string \<rightharpoonup> balance_entry) \<Rightarrow> address_record \<Rightarrow> json" where
  "balance_result balances addressRecord =
     JObj [(''address'', JStr (ar_address addressRecord)),
           (''label'', json_opt_str (ar_label addressRecord)),
           (''balance'',
              (case balances (ar_address addressRecord) of
                 None \<Rightarrow> JNull
               | Some b \<Rightarrow> balance_json b))]"

text \<open>\<open>txs.slice(0, n)\<close>: a negative \<open>n\<close> counts from the end of the array.\<close>

definition slice0 :: "'a list \<Rightarrow> int \<Rightarrow> 'a list" where
  "slice0 xs n = (if 0 \<le> n then take (nat n) xs else take (length xs - nat (- n)) xs)"

text \<open>\<open>GET /api/sync/user\<close> (\<open>sync.js\<close>)\<close>

definition sync_user ::
  "db \<Rightarrow> upstream \<Rightarrow> request list \<Rightarrow> string \<Rightarrow> string \<Rightarrow> int \<Rightarrow> response \<times> request list" where
  "sync_user d up reqs now userId limit =
     (case getUserAddresses d userId of
        Inl error \<Rightarrow> (error_response 500 (''Failed to fetch user data: '' @ error), reqs)
      | Inr addresses \<Rightarrow>
          if length addresses = 0 then
            (ok_response (JObj [(''user_id'', JStr userId), (''total_addresses'', json_int 0),
                                (''addresses'', JArr [])]), reqs)
          else
            (case getMultipleAddressInfo up reqs (map ar_address addresses) limit 0 of
               (Inl error, reqs1) \<Rightarrow>
                 (error_response 500 (''Failed to fetch user data: '' @ error), reqs1)
             | (Inr multiAddressInfo, reqs1) \<Rightarrow>
                 (case getMultipleBalances up reqs1 (map ar_address addresses) of
                    (Inl error, reqs2) \<Rightarrow>
                      (error_response 500 (''Failed to fetch user data: '' @ error), reqs2)
                  | (Inr balances, reqs2) \<Rightarrow>
                      (ok_response (JObj
                         [(''user_id'', JStr userId),
                          (''total_addresses'', json_int (int (length addresses))),
                          (''addresses'', JArr (map (balance_result balances) addresses)),
                          (''recent_transactions'',
                             (case mi_txs multiAddressInfo of
                                None \<Rightarrow> JArr []
                              | Some txs \<Rightarrow> JArr (map syncTransaction (slice0 txs limit)))),
                          (''fetched_at'', JStr now)]),
                       reqs2))))"

text \<open>\<open>GET /api/sync/user/balances\<close> (\<open>sync.js\<close>, lines 158-206)\<close>

definition sync_user_balances ::
  "db \<Rightarrow> upstream \<Rightarrow> request list \<Rightarrow> string \<Rightarrow> string \<Rightarrow> response \<times> request list" where
  "sync_user_balances d up reqs now userId =
     (case getUserAddresses d userId of
        Inl error \<Rightarrow> (error_response 500 (''Failed to fetch balances: '' @ error), reqs)
      | Inr addresses \<Rightarrow>
          if length addresses = 0 then
            (ok_response (JObj [(''user_id'', JStr userId), (''total_addresses'', json_int 0),
                                (''balances'', JArr [])]), reqs)
          else
            (case getMultipleBalances up reqs (map ar_address addresses) of
               (Inl error, reqs1) \<Rightarrow>
                 (error_response 500 (''Failed to fetch balances: '' @ error), reqs1)
             | (Inr balances, reqs1) \<Rightarrow>
                 (ok_response (JObj
                    [(''user_id'', JStr userId),
                     (''total_addresses'', json_int (int (length addresses))),
                     (''balances'', JArr (map (balance_result balances) addresses)),
                     (''fetched_at'', JStr now)]),
                  reqs1)))"

section \<open>\<open>processTransaction\<close>\<close>

record processed_transaction =
  pt_hash :: string
  pt_block_height :: "int option"
  pt_time :: int
  pt_value :: int
  pt_fee :: int
  pt_confirmations :: int
  pt_is_incoming :: bool

text \<open>The first loop: \<open>if (output.addr === address) { isIncoming = true; value += output.value; }\<close>\<close>

fun scan_outputs :: "string \<Rightarrow> tx_output list \<Rightarrow> bool \<times> int \<Rightarrow> bool \<times> int" where
  "scan_outputs address [] acc = acc"
| "scan_outputs address (output # rest) (isIncoming, v) =
     (if out_addr output = Some address
      then scan_outputs address rest (True, v + out_value output)
      else scan_outputs address rest (isIncoming, v))"

text \<open>
  The second loop:
  \<open>if (input.prev_out && input.prev_out.addr === address) { value -= input.prev_out.value; }\<close>
\<close>

fun scan_inputs :: "string \<Rightarrow> tx_input list \<Rightarrow> int \<Rightarrow> int" where
  "scan_inputs address [] v = v"
| "scan_inputs address (input # rest) v =
     (case in_prev_out input of
        None \<Rightarrow> scan_inputs address rest v
      | Some po \<Rightarrow>
          if po_addr po = Some address then scan_inputs address rest (v - po_value po)
          else scan_inputs address rest v)"

definition processTransaction ::
  "upstream \<Rightarrow> request list \<Rightarrow> tx \<Rightarrow> string \<Rightarrow> processed_transaction \<times> request list" where
  "processTransaction up reqs t address =
     (case scan_outputs address (tx_out t) (False, 0) of
        (isIncoming, v0) \<Rightarrow>
          (case (case tx_block_height t of
                   None \<Rightarrow> (0, reqs)
                 | Some h \<Rightarrow> if h = 0 then (0, reqs) else calculateConfirmations up reqs h) of
             (confirmations, reqs') \<Rightarrow>
               (\<lparr>pt_hash = tx_hash t,
                 pt_block_height = tx_block_height t,
                 pt_time = tx_time t,
                 pt_value = \<bar>if isIncoming then v0 else scan_inputs address (tx_inputs t) v0\<bar>,
                 pt_fee = (case tx_fee t of None \<Rightarrow> 0 | Some f \<Rightarrow> f),
                 pt_confirmations = confirmations,
                 pt_is_incoming = isIncoming\<rparr>,
                reqs')))"

section \<open>AddressValidator: \<open>isValidBitcoinAddress\<close>\<close>

text \<open>
  The four regular expressions have one shape: anchored at both ends, a sequence of
  character classes, each repeated between a least and a greatest number of times. A class
  is a list of character ranges; a literal character is the range from itself to itself.
  A string is its list of code units; only ASCII characters belong to any class.
\<close>

type_synonym char_class = "(char \<times> char) list"

definition in_class :: "char_class \<Rightarrow> char \<Rightarrow> bool" where
  "in_class cls c =
     list_ex (\<lambda>(lo, hi). (of_char lo :: nat) \<le> of_char c \<and> (of_char c :: nat) \<le> of_char hi) cls"

fun matches :: "(char_class \<times> nat \<times> nat) list \<Rightarrow> string \<Rightarrow> bool" where
  "matches [] s = (s = [])"
| "matches ((cls, lo, hi) # rest) s =
     list_ex (\<lambda>k. k \<le> length s \<and> list_all (in_class cls) (take k s) \<and> matches rest (drop k s))
       [lo ..< Suc hi]"

definition lit :: "char \<Rightarrow> char_class \<times> nat \<times> nat" where
  "lit c = ([(c, c)], 1, 1)"

text \<open>\<open>[a-km-zA-HJ-NP-Z1-9]\<close> and \<open>[a-z0-9]\<close>\<close>

definition base58_class :: char_class where
  "base58_class = [(CHR ''a'', CHR ''k''), (CHR ''m'', CHR ''z''), (CHR ''A'', CHR ''H''),
                   (CHR ''J'', CHR ''N''), (CHR ''P'', CHR ''Z''), (CHR ''1'', CHR ''9'')]"

definition lower_alnum_class :: char_class where
  "lower_alnum_class = [(CHR ''a'', CHR ''z''), (CHR ''0'', CHR ''9'')]"

text \<open>\<open>/^[13][a-km-zA-HJ-NP-Z1-9]{25,34}$/\<close>\<close>

definition legacyPattern :: "(char_class \<times> nat \<times> nat) list" where
  "legacyPattern = [([(CHR ''1'', CHR ''1''), (CHR ''3'', CHR ''3'')], 1, 1), (base58_class, 25, 34)]"

text \<open>\<open>/^bc1[a-z0-9]{39,59}$/\<close>\<close>

definition segwitPattern :: "(char_class \<times> nat \<times> nat) list" where
  "segwitPattern = [lit CHR ''b'', lit CHR ''c'', lit CHR ''1'', (lower_alnum_class, 39, 59)]"

text \<open>\<open>/^[2mn][a-km-zA-HJ-NP-Z1-9]{25,34}$/\<close>\<close>

definition testnetPattern :: "(char_class \<times> nat \<times> nat) list" where
  "testnetPattern = [([(CHR ''2'', CHR ''2''), (CHR ''m'', CHR ''m''), (CHR ''n'', CHR ''n'')], 1, 1),
                     (base58_class, 25, 34)]"

text \<open>\<open>/^tb1[a-z0-9]{39,59}$/\<close>\<close>

definition testnetSegwitPattern :: "(char_class \<times> nat \<times> nat) list" where
  "testnetSegwitPattern = [lit CHR ''t'', lit CHR ''b'', lit CHR ''1'', (lower_alnum_class, 39, 59)]"

definition isValidBitcoinAddress :: "string \<Rightarrow> bool" where
  "isValidBitcoinAddress address \<longleftrightarrow>
     matches legacyPattern address \<or> matches segwitPattern address \<or>
     matches testnetPattern address \<or> matches testnetSegwitPattern address"

subsection \<open>The address families as the specification words them\<close>

text \<open>
  A family is a set of prefixes and a body: a string belongs to it when it is one of the
  prefixes followed by a body over the family's alphabet with a length in the family's
  range. Base58 is the alphanumeric characters without \<open>0\<close>, \<open>O\<close>, \<open>I\<close> and \<open>l\<close>; the
  bech32 data characters are the 32 lower-case letters and digits without \<open>1\<close>, \<open>b\<close>,
  \<open>i\<close> and \<open>o\<close>.
\<close>

definition base58_alphabet :: string where
  "base58_alphabet = ''123456789ABCDEFGHJKLMNPQRSTUVWXYZabcdefghijkmnopqrstuvwxyz''"

definition bech32_alphabet :: string where
  "bech32_alphabet = ''qpzry9x8gf2tvdw0s3jn54khce6mua7l''"

definition lower_alnum_alphabet :: string where
  "lower_alnum_alphabet = ''abcdefghijklmnopqrstuvwxyz0123456789''"

definition in_family :: "string list \<Rightarrow> string \<Rightarrow> nat \<Rightarrow> nat \<Rightarrow> string \<Rightarrow> bool" where
  "in_family prefixes alphabet lo hi a =
     list_ex (\<lambda>p. take (length p) a = p \<and> lo \<le> length a - length p \<and>
                  length a - length p \<le> hi \<and>
                  list_all (\<lambda>c. c \<in> set alphabet) (drop (length p) a)) prefixes"

text \<open>The four families with the segwit bodies over the bech32 alphabet.\<close>

definition spec_families :: "string \<Rightarrow> bool" where
  "spec_families a \<longleftrightarrow>
     in_family [''1'', ''3''] base58_alphabet 25 34 a \<or>
     in_family [''bc1''] bech32_alphabet 39 59 a \<or>
     in_family [''2'', ''m'', ''n''] base58_alphabet 25 34 a \<or>
     in_family [''tb1''] bech32_alphabet 39 59 a"

text \<open>The four families with the segwit bodies over all lower-case letters and digits.\<close>

definition pattern_families :: "string \<Rightarrow> bool" where
  "pattern_families a \<longleftrightarrow>
     in_family [''1'', ''3''] base58_alphabet 25 34 a \<or>
     in_family [''bc1''] lower_alnum_alphabet 39 59 a \<or>
     in_family [''2'', ''m'', ''n''] base58_alphabet 25 34 a \<or>
     in_family [''tb1''] lower_alnum_alphabet 39 59 a"

section \<open>Reading a response, and example data\<close>

text \<open>
  \<open>fetches txs\<close> counts the transactions whose \<open>block_height\<close> is truthy.
  \<open>listed k r\<close> is the array under \<open>data.k\<close> of the body of \<open>r\<close>, and \<open>confirmations_at r i\<close>
  the \<open>confirmations\<close> field of the \<open>i\<close>-th entry of \<open>data.transactions\<close>.
\<close>

definition fetches :: "tx list \<Rightarrow> nat" where
  "fetches txs = length (filter (\<lambda>t. truthy (tx_block_height t)) txs)"

definition data_field :: "string \<Rightarrow> response \<Rightarrow> json option" where
  "data_field k r = (case get_field ''data'' (resp_body r) of
     None \<Rightarrow> None | Some d \<Rightarrow> get_field k d)"

definition listed :: "string \<Rightarrow> response \<Rightarrow> json list" where
  "listed k r = (case data_field k r of None \<Rightarrow> [] | Some j \<Rightarrow> elements j)"

definition confirmations_at :: "response \<Rightarrow> nat \<Rightarrow> json option" where
  "confirmations_at r i = get_field ''confirmations'' (listed ''transactions'' r ! i)"

definition demo_tx :: "int option \<Rightarrow> tx" where
  "demo_tx h = \<lparr>tx_hash = ''h'', tx_block_height = h, tx_time = 0, tx_fee = None,
     tx_inputs = [], tx_out = []\<rparr>"

definition demo_balance :: balance_entry where
  "demo_balance = \<lparr>final_balance = 5000000000, total_received = 5000000000,
     total_sent = 0, n_tx = 1\<rparr>"

text \<open>
  An explorer that knows the transactions \<open>txs\<close>, holds a balance for the address \<open>A\<close>
  alone, and answers the chain tip with \<open>tip\<close> (a height, or an error message).
\<close>

definition demo_explorer :: "tx list \<Rightarrow> string + int \<Rightarrow> upstream" where
  "demo_explorer txs tip =
     \<lparr>rawaddr = (\<lambda>n a l off. Inr \<lparr>ai_balance = demo_balance, ai_txs = Some txs\<rparr>),
      multiaddr = (\<lambda>n a l off. Inr \<lparr>mi_addresses = [], mi_txs = Some txs\<rparr>),
      balance = (\<lambda>n a. Inr [''A'' \<mapsto> demo_balance]),
      latestblock = (\<lambda>n. case tip of
         Inl message \<Rightarrow> Inl message
       | Inr h \<Rightarrow> Inr \<lparr>height = h, block_hash = ''tip'', block_time = 0\<rparr>)\<rparr>"

definition demo_txs :: "tx list" where
  "demo_txs = [demo_tx (Some 100), demo_tx (Some 101), demo_tx None, demo_tx (Some 0)]"

definition demo_up :: upstream where
  "demo_up = demo_explorer demo_txs (Inr 105)"

definition demo_up_tip_down :: upstream where
  "demo_up_tip_down = demo_explorer demo_txs (Inl ''timeout'')"

text \<open>A repository in which the user watches the addresses \<open>A\<close> and \<open>B\<close>.\<close>

definition demo_record :: address_record where
  "demo_record = \<lparr>ar_address = ''A'', ar_label = None\<rparr>"

definition demo_addrs :: "address_record list" where
  "demo_addrs = [demo_record, \<lparr>ar_address = ''B'', ar_label = None\<rparr>]"

definition demo_db :: db where
  "demo_db =
     \<lparr>getUserAddresses = (\<lambda>u. Inr demo_addrs),
      getAddressByUserAndAddress = (\<lambda>u a. if a = ''A'' then Inr (Some demo_record) else Inr None)\<rparr>"

text \<open>
  A transaction with a fee, a coinbase input, an input that spends an output of \<open>A\<close>, and
  an output to \<open>B\<close>; and an explorer that knows it while its chain-tip endpoint times out.
\<close>

definition demo_full_tx :: tx where
  "demo_full_tx = \<lparr>tx_hash = ''f'', tx_block_height = Some 100, tx_time = 7,
     tx_fee = Some 50000000,
     tx_inputs = [\<lparr>in_prev_out = None\<rparr>,
                  \<lparr>in_prev_out = Some \<lparr>po_addr = Some ''A'', po_value = 5000000000\<rparr>\<rparr>],
     tx_out = [\<lparr>out_addr = Some ''B'', out_value = 5000000000\<rparr>]\<rparr>"

definition demo_up_full_tip_down :: upstream where
  "demo_up_full_tip_down = demo_explorer [demo_full_tx] (Inl ''timeout'')"

section \<open>Properties of the UnitConverter\<close>

lemma two_powi_Suc: "(2::rat) powi (1 + n) = 2 * 2 powi n"
  by (simp add: power_int_add)

lemma round_even_err: "\<bar>of_int (round_even t) - t\<bar> \<le> 1/2"
proof -
  have "of_int \<lfloor>t\<rfloor> \<le> t" "t < of_int \<lfloor>t\<rfloor> + 1" by linarith+
  then show ?thesis
    unfolding round_even_def Let_def by (auto simp: abs_le_iff)
qed

lemma quotient_of_abs_pos:
  assumes "x \<noteq> 0" "quotient_of \<bar>x\<bar> = (p, q)"
  shows "0 < p" "0 < q" "\<bar>x\<bar> = of_int p / of_int q"
proof -
  show q: "0 < q" using assms(2) by (rule quotient_of_denom_pos)
  show x: "\<bar>x\<bar> = of_int p / of_int q" using assms(2) by (rule quotient_of_div)
  have "0 < \<bar>x\<bar>" using assms(1) by simp
  with x q show "0 < p" by (simp add: zero_less_divide_iff)
qed

lemma bitlen_powi_bounds:
  assumes "0 < p"
  shows "2 powi (bitlen p - 1) \<le> (of_int p :: rat)" "(of_int p :: rat) < 2 powi (bitlen p)"
proof -
  from bitlen_bounds[OF assms] have a: "2 ^ nat (bitlen p - 1) \<le> p" and b: "p < 2 ^ nat (bitlen p)"
    by auto
  have ge1: "1 \<le> bitlen p" using assms by (simp add: bitlen_alt_def)
  have "(of_int (2 ^ nat (bitlen p - 1)) :: rat) \<le> of_int p" using a by (simp only: of_int_le_iff)
  then show "2 powi (bitlen p - 1) \<le> (of_int p :: rat)"
    using ge1 by (simp add: power_int_def)
  have "(of_int p :: rat) < of_int (2 ^ nat (bitlen p))" using b by (simp only: of_int_less_iff)
  then show "(of_int p :: rat) < 2 powi (bitlen p)"
    using ge1 by (simp add: power_int_def)
qed

lemma expo_le: assumes "x \<noteq> 0" shows "2 powi (expo x) \<le> \<bar>x\<bar>"
proof -
  obtain p q where pq: "quotient_of \<bar>x\<bar> = (p, q)" by (cases "quotient_of \<bar>x\<bar>")
  note f = quotient_of_abs_pos[OF assms pq]
  let ?e0 = "bitlen p - bitlen q"
  show ?thesis
  proof (cases "2 powi ?e0 \<le> \<bar>x\<bar>")
    case True
    then show ?thesis by (simp add: expo_def pq)
  next
    case False
    then have e: "expo x = ?e0 - 1" by (simp add: expo_def pq)
    have 1: "2 powi (bitlen p - 1) \<le> (of_int p :: rat)" using bitlen_powi_bounds(1)[OF f(1)] .
    have 2: "(of_int q :: rat) < 2 powi (bitlen q)" using bitlen_powi_bounds(2)[OF f(2)] .
    have "(2::rat) powi (?e0 - 1) = 2 powi (bitlen p - 1) / 2 powi (bitlen q)"
      by (simp add: power_int_diff algebra_simps two_powi_Suc)
    also have "\<dots> \<le> of_int p / 2 powi (bitlen q)"
      using 1 by (simp add: divide_right_mono)
    also have "\<dots> \<le> of_int p / of_int q"
      using 2 f by (simp add: frac_le)
    finally show ?thesis using e f(3) by simp
  qed
qed

lemma expo_gt: assumes "x \<noteq> 0" shows "\<bar>x\<bar> < 2 powi (expo x + 1)"
proof -
  obtain p q where pq: "quotient_of \<bar>x\<bar> = (p, q)" by (cases "quotient_of \<bar>x\<bar>")
  note f = quotient_of_abs_pos[OF assms pq]
  let ?e0 = "bitlen p - bitlen q"
  have 1: "(of_int p :: rat) < 2 powi (bitlen p)" using bitlen_powi_bounds(2)[OF f(1)] .
  have 2: "2 powi (bitlen q - 1) \<le> (of_int q :: rat)" using bitlen_powi_bounds(1)[OF f(2)] .
  have up: "\<bar>x\<bar> < 2 powi (?e0 + 1)"
  proof -
    have "\<bar>x\<bar> = of_int p / of_int q" by (rule f(3))
    also have "\<dots> < 2 powi (bitlen p) / of_int q"
      using 1 f(2) by (simp add: divide_strict_right_mono)
    also have "\<dots> \<le> 2 powi (bitlen p) / 2 powi (bitlen q - 1)"
      using 2 by (simp add: frac_le)
    also have "\<dots> = 2 powi (?e0 + 1)"
      by (simp add: power_int_diff algebra_simps two_powi_Suc)
    finally show ?thesis .
  qed
  show ?thesis
  proof (cases "2 powi ?e0 \<le> \<bar>x\<bar>")
    case True
    then show ?thesis using up by (simp add: expo_def pq)
  next
    case False
    then show ?thesis by (simp add: expo_def pq)
  qed
qed

lemma expo_eqI:
  assumes "2 powi e \<le> \<bar>x\<bar>" "\<bar>x\<bar> < 2 powi (e + 1)"
  shows "expo x = e"
proof -
  have "(0::rat) < 2 powi e" by simp
  then have "0 < \<bar>x\<bar>" using assms(1) by (rule less_le_trans)
  then have nz: "x \<noteq> 0" by simp
  have "(2::rat) powi (expo x) < 2 powi (e + 1)"
    using expo_le[OF nz] assms(2) by linarith
  then have a: "expo x < e + 1"
    using power_int_increasing[of "e + 1" "expo x" "2::rat"] by (cases "expo x < e + 1") auto
  have "(2::rat) powi e < 2 powi (expo x + 1)"
    using expo_gt[OF nz] assms(1) by linarith
  then have b: "e < expo x + 1"
    using power_int_increasing[of "expo x + 1" e "2::rat"] by (cases "e < expo x + 1") auto
  from a b show ?thesis by linarith
qed

lemma round_double_normal:
  assumes "2 powi (-1022) \<le> \<bar>x\<bar>" "2 powi e \<le> \<bar>x\<bar>" "\<bar>x\<bar> < 2 powi (e + 1)"
  shows "round_double x = of_int (round_even (x / 2 powi (e - 52))) * 2 powi (e - 52)"
proof -
  have "(0::rat) < 2 powi e" by simp
  then have "0 < \<bar>x\<bar>" using assms(2) by (rule less_le_trans)
  then have nz: "x \<noteq> 0" by simp
  show ?thesis using assms(1) nz expo_eqI[OF assms(2,3)]
    by (simp add: round_double_def Let_def)
qed

lemma round_double_rel_err:
  assumes "2 powi (-1022) \<le> \<bar>x\<bar>"
  shows "\<bar>round_double x - x\<bar> \<le> \<bar>x\<bar> / 2 ^ 53"
proof -
  have nz: "x \<noteq> 0" using assms by auto
  define u :: rat where "u = 2 powi (expo x - 52)"
  have upos: "0 < u" by (simp add: u_def)
  have rd: "round_double x = of_int (round_even (x / u)) * u"
    using assms nz by (simp add: round_double_def u_def Let_def)
  have "round_double x - x = (of_int (round_even (x / u)) - x / u) * u"
    using upos by (simp add: rd algebra_simps)
  then have "\<bar>round_double x - x\<bar> = \<bar>of_int (round_even (x / u)) - x / u\<bar> * u"
    using upos by (simp add: abs_mult)
  also have "\<dots> \<le> 1/2 * u"
    using round_even_err[of "x / u"] upos by (simp add: mult_right_mono)
  also have "\<dots> = 2 powi (expo x) / 2 ^ 53"
    by (simp add: u_def power_int_diff)
  also have "\<dots> \<le> \<bar>x\<bar> / 2 ^ 53"
    using expo_le[OF nz] by (simp add: divide_right_mono)
  finally show ?thesis .
qed

lemma double_max_big: "4503599627370496 < double_max"
  by (simp add: double_max_def)

lemma tiny_le: "(2::rat) powi (-1022) \<le> 1 / 100000000"
  by simp

lemma floor_rat_numeral:
  "\<lfloor>(numeral a :: rat) / numeral b\<rfloor> = numeral a div numeral b"
  "\<lfloor>- (numeral a :: rat) / numeral b\<rfloor> = - numeral a div numeral b"
  "\<lfloor>- ((numeral a :: rat) / numeral b)\<rfloor> = - numeral a div numeral b"
  using floor_divide_of_int_eq[of "numeral a" "numeral b", where ?'a = rat]
        floor_divide_of_int_eq[of "- numeral a" "numeral b", where ?'a = rat]
  by simp_all

text \<open>
  C4, amended. For every non-negative integer amount \<open>b\<close> below \<open>2^51\<close> base units (every
  amount up to the supply of 2.1 * 10^15 base units is) the round trip
  \<open>btcToSatoshis(satoshisToBTC(b))\<close> gives \<open>b\<close> back: the two roundings of the double
  arithmetic move the product by less than a half.
\<close>

theorem satoshi_round_trip:
  assumes "b < 2 ^ 51"
  shows "btcToSatoshis (satoshisToBTC (of_nat b)) = Finite (of_nat b)"
proof (cases "b = 0")
  case True
  have "(0::rat) \<le> double_max" using double_max_big by linarith
  moreover have "\<lfloor>(1::rat) / 2\<rfloor> = 0" by (rule floor_unique) simp_all
  ultimately show ?thesis using True
    by (simp add: btcToSatoshis_def satoshisToBTC_def round_double_def overflow_def Math_round_def)
next
  case False
  define B :: rat where "B = of_nat b"
  have B1: "1 \<le> B" using False by (simp add: B_def)
  have "b \<le> 2 ^ 51 - 1" using assms by simp
  then have "B \<le> of_nat (2 ^ 51 - 1)" unfolding B_def by (simp only: of_nat_le_iff)
  then have B2: "B \<le> 2251799813685247" by simp
  define q where "q = B / 100000000"
  define x where "x = round_double q"
  define z where "z = x * 100000000"
  define y where "y = round_double z"
  have qpos: "1 / 100000000 \<le> q" using B1 by (simp add: q_def)
  then have "2 powi (-1022) \<le> \<bar>q\<bar>" using tiny_le by linarith
  from round_double_rel_err[OF this] have ex: "\<bar>x - q\<bar> \<le> q / 2 ^ 53"
    using qpos by (simp add: x_def)
  have zB: "z - B = (x - q) * 100000000" by (simp add: z_def q_def algebra_simps)
  have "\<bar>z - B\<bar> = \<bar>x - q\<bar> * \<bar>100000000\<bar>" unfolding zB by (rule abs_mult)
  also have "\<dots> = \<bar>x - q\<bar> * 100000000" by simp
  also have "\<dots> \<le> q / 2 ^ 53 * 100000000" using ex by simp
  also have "\<dots> = B / 2 ^ 53" by (simp add: q_def)
  finally have ez: "\<bar>z - B\<bar> \<le> B / 2 ^ 53" .
  have ez': "z - B \<le> B / 9007199254740992" "B - z \<le> B / 9007199254740992"
    using ez by (simp_all only: abs_le_iff minus_diff_eq power_numeral) simp_all
  have zlow: "1 / 2 \<le> z" using ez' B1 by linarith
  have "(2::rat) powi (-1022) \<le> 1 / 2" by simp
  then have "2 powi (-1022) \<le> \<bar>z\<bar>" using zlow by linarith
  from round_double_rel_err[OF this] have ey: "\<bar>y - z\<bar> \<le> z / 2 ^ 53"
    using zlow by (simp add: y_def)
  have ey': "y - z \<le> z / 9007199254740992" "z - y \<le> z / 9007199254740992"
    using ey by (simp_all only: abs_le_iff minus_diff_eq power_numeral) simp_all
  have lo: "B - 1 / 2 < y" and hi: "y < B + 1 / 2"
    using ey' ez' B1 B2 by linarith+
  have "\<bar>y\<bar> \<le> double_max" using lo hi B1 B2 double_max_big by linarith
  then have ov: "overflow y = Finite y" by (auto simp: overflow_def)
  have "\<lfloor>y + 1 / 2\<rfloor> = int b"
    using lo hi by (intro floor_unique) (simp_all add: B_def)
  then have "Math_round y = int b" by (simp add: Math_round_def)
  then show ?thesis
    using ov by (simp add: btcToSatoshis_def satoshisToBTC_def y_def z_def x_def q_def B_def)
qed

text \<open>The amended C4 at 5000000000 base units.\<close>

theorem satoshi_round_trip_witness:
  "(5000000000::nat) < 2 ^ 51 \<and>
   btcToSatoshis (satoshisToBTC (of_nat 5000000000)) = Finite (of_nat 5000000000)"
  using satoshi_round_trip[of 5000000000] by simp

lemma satoshisToBTC_large:
  "satoshisToBTC 3423310331225640 = 4594689348960329 / 134217728"
  unfolding satoshisToBTC_def
  by (subst round_double_normal[where e = 25])
     (simp_all add: round_even_def Let_def floor_rat_numeral)

lemma round_double_large:
  "round_double (4594689348960329 / 134217728 * 100000000) = 6846620662451281 / 2"
  by (subst round_double_normal[where e = 51])
     (simp_all add: round_even_def Let_def floor_rat_numeral)

text \<open>
  C4, as the specification states it, for every non-negative integer: at
  \<open>b = 3423310331225640\<close>, an integer that a double holds exactly, the quotient rounds to
  \<open>4594689348960329 / 2^27\<close>, the product to \<open>b + 1/2\<close>, and \<open>Math.round\<close> gives \<open>b + 1\<close>.
\<close>

theorem satoshi_round_trip_counterexample:
  "btcToSatoshis (satoshisToBTC 3423310331225640) = Finite 3423310331225641"
  unfolding satoshisToBTC_large btcToSatoshis_def round_double_large using double_max_big
  by (simp add: overflow_def Math_round_def floor_rat_numeral)

lemma Math_round_vs_half_away:
  "Math_round p = (if p < 0 \<and> p - of_int \<lfloor>p\<rfloor> = 1/2
                  then round_half_away_from_zero p + 1 else round_half_away_from_zero p)"
proof (cases "0 \<le> p")
  case True
  then show ?thesis by (simp add: Math_round_def round_half_away_from_zero_def)
next
  case False
  define f where "f = \<lfloor>p\<rfloor>"
  define r where "r = p - of_int f"
  have r: "0 \<le> r" "r < 1" unfolding r_def f_def by linarith+
  have p: "p = of_int f + r" by (simp add: r_def)
  have M: "Math_round p = (if r < 1/2 then f else f + 1)"
    unfolding Math_round_def using r by (auto simp: p intro!: floor_unique)
  have "\<lfloor>- p + 1/2\<rfloor> = (if r \<le> 1/2 then - f else - f - 1)"
    using r by (auto simp: p intro!: floor_unique)
  then have H: "round_half_away_from_zero p = (if r \<le> 1/2 then f else f + 1)"
    using False by (simp add: round_half_away_from_zero_def)
  show ?thesis using False M H r by (auto simp: r_def[symmetric] f_def[symmetric])
qed

text \<open>
  C6, amended. When the double product \<open>p\<close> of \<open>decimal\<close> and \<open>10^8\<close> is finite,
  \<open>btcToSatoshis\<close> is \<open>Math.round p\<close>: it is \<open>p\<close> rounded half away from zero unless \<open>p\<close> is a
  negative tie, where it is one more (the tie goes towards plus infinity). The product is
  within a relative error of \<open>2^-53\<close> of the exact one, and so is the quotient that
  \<open>satoshisToBTC\<close> returns: the double nearest \<open>baseUnits / 10^8\<close>, not the exact quotient.
\<close>

theorem unit_converter_rounding:
  assumes "overflow (round_double (d * 100000000)) = Finite p"
  shows "btcToSatoshis d = Finite (of_int (if p < 0 \<and> p - of_int \<lfloor>p\<rfloor> = 1/2
            then round_half_away_from_zero p + 1 else round_half_away_from_zero p)) \<and>
         (0 \<le> p \<or> p - of_int \<lfloor>p\<rfloor> \<noteq> 1/2 \<longrightarrow>
            btcToSatoshis d = Finite (of_int (round_half_away_from_zero p))) \<and>
         (2 powi (-1022) \<le> \<bar>d * 100000000\<bar> \<longrightarrow>
            \<bar>p - d * 100000000\<bar> \<le> \<bar>d * 100000000\<bar> / 2 ^ 53) \<and>
         (2 powi (-1022) \<le> \<bar>s / 100000000\<bar> \<longrightarrow>
            \<bar>satoshisToBTC s - s / 100000000\<bar> \<le> \<bar>s / 100000000\<bar> / 2 ^ 53)"
proof (intro conjI impI)
  have b: "btcToSatoshis d = Finite (of_int (Math_round p))"
    using assms by (simp add: btcToSatoshis_def)
  show "btcToSatoshis d = Finite (of_int (if p < 0 \<and> p - of_int \<lfloor>p\<rfloor> = 1/2
            then round_half_away_from_zero p + 1 else round_half_away_from_zero p))"
    unfolding b by (simp only: Math_round_vs_half_away)
  assume "0 \<le> p \<or> p - of_int \<lfloor>p\<rfloor> \<noteq> 1/2"
  then show "btcToSatoshis d = Finite (of_int (round_half_away_from_zero p))"
    unfolding b by (subst Math_round_vs_half_away) auto
next
  have p: "p = round_double (d * 100000000)"
    using assms by (auto simp: overflow_def split: if_splits)
  assume "2 powi (-1022) \<le> \<bar>d * 100000000\<bar>"
  then show "\<bar>p - d * 100000000\<bar> \<le> \<bar>d * 100000000\<bar> / 2 ^ 53"
    unfolding p by (rule round_double_rel_err)
next
  assume "2 powi (-1022) \<le> \<bar>s / 100000000\<bar>"
  then show "\<bar>satoshisToBTC s - s / 100000000\<bar> \<le> \<bar>s / 100000000\<bar> / 2 ^ 53"
    unfolding satoshisToBTC_def by (rule round_double_rel_err)
qed

lemma round_double_tie: "round_double (- 1 / 512 * 100000000) = - 390625 / 2"
  by (subst round_double_normal[where e = 17])
     (simp_all add: round_even_def Let_def floor_rat_numeral)

lemma satoshisToBTC_one: "satoshisToBTC 1 = 3022314549036573 / 302231454903657293676544"
  unfolding satoshisToBTC_def
  by (subst round_double_normal[where e = "-27"])
     (simp_all add: round_even_def Let_def floor_rat_numeral)

text \<open>
  C6, as the specification states it. At \<open>decimal = -1/512\<close> the product is
  \<open>-195312.5\<close> exactly; \<open>btcToSatoshis\<close> gives \<open>-195312\<close>, rounding half away from zero
  gives \<open>-195313\<close>. And \<open>satoshisToBTC 1\<close> is the double nearest \<open>10^-8\<close>, not \<open>10^-8\<close>.
\<close>

theorem half_away_counterexample:
  "btcToSatoshis (- 1 / 512) = Finite (- 195312) \<and>
   round_half_away_from_zero (- 1 / 512 * 100000000) = - 195313 \<and>
   satoshisToBTC 1 \<noteq> 1 / 100000000"
proof (intro conjI)
  show "btcToSatoshis (- 1 / 512) = Finite (- 195312)"
    unfolding btcToSatoshis_def round_double_tie using double_max_big
    by (simp add: overflow_def Math_round_def floor_rat_numeral)
  show "round_half_away_from_zero (- 1 / 512 * 100000000) = - 195313"
    by (simp add: round_half_away_from_zero_def floor_rat_numeral)
  show "satoshisToBTC 1 \<noteq> 1 / 100000000"
    unfolding satoshisToBTC_one by simp
qed

lemma round_double_fifty: "round_double (50 * 100000000) = 5000000000"
  by (subst round_double_normal[where e = 32])
     (simp_all add: round_even_def Let_def floor_rat_numeral)

text \<open>
  The amended C6 at the negative tie \<open>-1/512\<close>, at 50 (a product that is not negative),
  and for the quotient of 1 base unit.
\<close>

theorem unit_converter_rounding_witness:
  "overflow (round_double (- 1 / 512 * 100000000)) = Finite (- 390625 / 2) \<and>
   (- 390625 / 2 :: rat) < 0 \<and> (- 390625 / 2 :: rat) - of_int \<lfloor>- 390625 / 2 :: rat\<rfloor> = 1 / 2 \<and>
   btcToSatoshis (- 1 / 512) = Finite (of_int (round_half_away_from_zero (- 390625 / 2) + 1)) \<and>
   overflow (round_double (50 * 100000000)) = Finite 5000000000 \<and>
   btcToSatoshis 50 = Finite (of_int (round_half_away_from_zero 5000000000)) \<and>
   2 powi (-1022) \<le> \<bar>(50::rat) * 100000000\<bar> \<and>
   2 powi (-1022) \<le> \<bar>(1::rat) / 100000000\<bar> \<and>
   \<bar>satoshisToBTC 1 - 1 / 100000000\<bar> \<le> \<bar>1 / 100000000\<bar> / 2 ^ 53"
proof -
  have ov1: "overflow (round_double (- 1 / 512 * 100000000)) = Finite (- 390625 / 2)"
    unfolding round_double_tie using double_max_big by (simp add: overflow_def)
  have tie: "(- 390625 / 2 :: rat) < 0 \<and>
      (- 390625 / 2 :: rat) - of_int \<lfloor>- 390625 / 2 :: rat\<rfloor> = 1 / 2"
    by (simp add: floor_rat_numeral)
  have ov2: "overflow (round_double (50 * 100000000)) = Finite 5000000000"
    unfolding round_double_fifty using double_max_big by (simp add: overflow_def)
  have n: "2 powi (-1022) \<le> \<bar>(50::rat) * 100000000\<bar>" "2 powi (-1022) \<le> \<bar>(1::rat) / 100000000\<bar>"
    by simp_all
  from unit_converter_rounding[OF ov1, of 1] tie n
  have a: "btcToSatoshis (- 1 / 512)
             = Finite (of_int (round_half_away_from_zero (- 390625 / 2) + 1))"
    and c: "\<bar>satoshisToBTC 1 - 1 / 100000000\<bar> \<le> \<bar>1 / 100000000\<bar> / 2 ^ 53"
    by (simp_all only: if_True simp_thms)
  from unit_converter_rounding[OF ov2, of 1]
  have b: "btcToSatoshis 50 = Finite (of_int (round_half_away_from_zero 5000000000))"
    by simp
  from ov1 tie a ov2 b n c show ?thesis by (simp only: simp_thms)
qed

section \<open>Properties of the LedgerClient\<close>

text \<open>
  C9. \<open>getMultipleBalances\<close> called with an empty address list returns the empty mapping
  and issues no request: the request log is the one it was given.
\<close>

theorem getMultipleBalances_empty:
  "getMultipleBalances up reqs [] = (Inr Map.empty, reqs)"
  by (simp add: getMultipleBalances_def)

text \<open>
  C2, as the specification states it: with an empty address list \<open>getMultipleAddressInfo\<close>
  fails. It does not: even with the explorer down it returns a result.
\<close>

theorem getMultipleAddressInfo_empty_counterexample:
  "fst (getMultipleAddressInfo explorer_down [] [] 50 0)
     = Inr \<lparr>mi_addresses = [], mi_txs = Some []\<rparr>"
  by (simp add: getMultipleAddressInfo_def)

text \<open>
  C2, amended. With an empty address list \<open>getMultipleAddressInfo\<close> returns the empty
  result \<open>{addresses: [], txs: []}\<close>, is never an error, and issues no request.
\<close>

theorem getMultipleAddressInfo_empty:
  "getMultipleAddressInfo up reqs [] limit offset
     = (Inr \<lparr>mi_addresses = [], mi_txs = Some []\<rparr>, reqs)"
  by (simp add: getMultipleAddressInfo_def)

section \<open>Properties of the transaction and balance views\<close>

lemma calculateConfirmations_eq:
  "calculateConfirmations up reqs h =
     ((case latestblock up (length reqs) of Inl e \<Rightarrow> 0 | Inr b \<Rightarrow> max 0 (height b - h + 1)),
      reqs @ [LatestBlock])"
  by (simp add: calculateConfirmations_def getLatestBlock_def split: sum.splits)

lemma formatTransaction_reqs:
  "snd (formatTransaction up reqs t) =
     (if truthy (tx_block_height t) then reqs @ [LatestBlock] else reqs)"
  by (simp add: formatTransaction_def calculateConfirmations_eq truthy_def split: option.splits)

lemma formatTransaction_confirmations:
  "get_field ''confirmations'' (fst (formatTransaction up reqs t)) =
     Some (json_int (case tx_block_height t of
        None \<Rightarrow> 0
      | Some h \<Rightarrow> if h = 0 then 0
                 else (case latestblock up (length reqs) of
                         Inl e \<Rightarrow> 0 | Inr b \<Rightarrow> max 0 (height b - h + 1))))"
  by (simp add: formatTransaction_def calculateConfirmations_eq split: option.splits)

lemma fetches_simps:
  "fetches [] = 0"
  "fetches (t # ts) = (if truthy (tx_block_height t) then Suc (fetches ts) else fetches ts)"
  by (simp_all add: fetches_def)

lemma fetches_le: "fetches txs \<le> length txs"
  by (simp add: fetches_def)

lemma formattedTransactions_reqs:
  "snd (formattedTransactions up reqs txs) = reqs @ replicate (fetches txs) LatestBlock"
proof (induction txs arbitrary: reqs)
  case Nil
  then show ?case by (simp add: fetches_simps)
next
  case (Cons t ts)
  have "snd (formattedTransactions up reqs (t # ts))
          = snd (formattedTransactions up (snd (formatTransaction up reqs t)) ts)"
    by (simp add: case_prod_unfold)
  also have "\<dots> = snd (formatTransaction up reqs t) @ replicate (fetches ts) LatestBlock"
    by (rule Cons.IH)
  also have "\<dots> = reqs @ replicate (fetches (t # ts)) LatestBlock"
    by (simp add: formatTransaction_reqs fetches_simps)
  finally show ?case .
qed

lemma formattedTransactions_length:
  "length (fst (formattedTransactions up reqs txs)) = length txs"
  by (induction txs arbitrary: reqs) (simp_all add: case_prod_unfold)

lemma formattedTransactions_nth:
  "i < length txs \<Longrightarrow>
     fst (formattedTransactions up reqs txs) ! i =
       fst (formatTransaction up (reqs @ replicate (fetches (take i txs)) LatestBlock) (txs ! i))"
proof (induction txs arbitrary: reqs i)
  case Nil
  then show ?case by simp
next
  case (Cons t ts)
  show ?case
  proof (cases i)
    case 0
    then show ?thesis by (simp add: fetches_simps case_prod_unfold)
  next
    case (Suc j)
    then have j: "j < length ts" using Cons.prems by simp
    have "fst (formattedTransactions up reqs (t # ts)) ! i
            = fst (formattedTransactions up (snd (formatTransaction up reqs t)) ts) ! j"
      using Suc by (simp add: case_prod_unfold)
    also have "\<dots> = fst (formatTransaction up
         (snd (formatTransaction up reqs t) @ replicate (fetches (take j ts)) LatestBlock) (ts ! j))"
      by (rule Cons.IH[OF j])
    also have "snd (formatTransaction up reqs t) @ replicate (fetches (take j ts)) LatestBlock
                 = reqs @ replicate (fetches (take i (t # ts))) LatestBlock"
      using Suc by (simp add: formatTransaction_reqs fetches_simps)
    finally show ?thesis using Suc by simp
  qed
qed

lemma address_transactions_ok:
  assumes "getAddressByUserAndAddress d u a = Inr (Some r)"
    and "rawaddr up (length reqs) a (min limit 50) offset = Inr info"
    and "ai_txs info = Some txs"
  shows "address_transactions d up reqs u a limit offset =
     (ok_response (JObj
        [(''address'', JStr a),
         (''total_transactions'', json_int (n_tx (ai_balance info))),
         (''transactions'', JArr (fst (formattedTransactions up
              (reqs @ [RawAddr a (min limit 50) offset]) txs)))]),
      reqs @ RawAddr a (min limit 50) offset # replicate (fetches txs) LatestBlock)"
  using assms formattedTransactions_reqs[of up "reqs @ [RawAddr a (min limit 50) offset]" txs]
  by (simp add: address_transactions_def getAddressInfo_def case_prod_unfold)

lemma user_transactions_ok:
  assumes "getUserAddresses d u = Inr addrs" and "addrs \<noteq> []"
    and "multiaddr up (length reqs) (join_bar (map ar_address addrs)) (min limit 100) offset = Inr info"
    and "mi_txs info = Some txs"
  shows "user_transactions d up reqs u limit offset =
     (ok_response (JObj
        [(''user_id'', JStr u),
         (''total_addresses'', json_int (int (length addrs))),
         (''transactions'', JArr (fst (formattedTransactions up
              (reqs @ [MultiAddr (join_bar (map ar_address addrs)) (min limit 100) offset]) txs)))]),
      reqs @ MultiAddr (join_bar (map ar_address addrs)) (min limit 100) offset
        # replicate (fetches txs) LatestBlock)"
  using assms formattedTransactions_reqs[of up
      "reqs @ [MultiAddr (join_bar (map ar_address addrs)) (min limit 100) offset]" txs]
  by (simp add: user_transactions_def getMultipleAddressInfo_def case_prod_unfold)

lemma listed_ok [simp]:
  "listed k (ok_response (JObj kvs)) = (case map_of kvs k of None \<Rightarrow> [] | Some j \<Rightarrow> elements j)"
  by (simp add: listed_def data_field_def ok_response_def)

lemma address_transactions_listing:
  assumes "getAddressByUserAndAddress d u a = Inr (Some r)"
    and "rawaddr up (length reqs) a (min limit 50) offset = Inr info"
    and "ai_txs info = Some txs"
  shows "listed ''transactions'' (fst (address_transactions d up reqs u a limit offset)) =
           fst (formattedTransactions up (reqs @ [RawAddr a (min limit 50) offset]) txs)"
    and "snd (address_transactions d up reqs u a limit offset) =
           reqs @ RawAddr a (min limit 50) offset # replicate (fetches txs) LatestBlock"
    and "resp_status (fst (address_transactions d up reqs u a limit offset)) = 200"
    and "get_field ''success'' (resp_body (fst (address_transactions d up reqs u a limit offset)))
           = Some (JBool True)"
  by (simp_all add: address_transactions_ok[OF assms] ok_response_def listed_def data_field_def)

lemma user_transactions_listing:
  assumes "getUserAddresses d u = Inr addrs" and "addrs \<noteq> []"
    and "multiaddr up (length reqs) (join_bar (map ar_address addrs)) (min limit 100) offset = Inr info"
    and "mi_txs info = Some txs"
  shows "listed ''transactions'' (fst (user_transactions d up reqs u limit offset)) =
           fst (formattedTransactions up
             (reqs @ [MultiAddr (join_bar (map ar_address addrs)) (min limit 100) offset]) txs)"
    and "snd (user_transactions d up reqs u limit offset) =
           reqs @ MultiAddr (join_bar (map ar_address addrs)) (min limit 100) offset
             # replicate (fetches txs) LatestBlock"
    and "resp_status (fst (user_transactions d up reqs u limit offset)) = 200"
    and "get_field ''success'' (resp_body (fst (user_transactions d up reqs u limit offset)))
           = Some (JBool True)"
  by (simp_all add: user_transactions_ok[OF assms] ok_response_def listed_def data_field_def)

lemma count_replicate_LatestBlock:
  "count_list (replicate n LatestBlock) LatestBlock = n"
  by (induction n) simp_all

lemma count_list_append: "count_list (xs @ ys) x = count_list xs x + count_list ys x"
  by (induction xs) simp_all

lemma sync_address_no_tip:
  "count_list (snd (sync_address d up reqs now u a limit offset)) LatestBlock
     = count_list reqs LatestBlock"
  by (simp add: sync_address_def getAddressInfo_def count_list_append
           split: sum.splits option.splits)

lemma sync_user_no_tip:
  "count_list (snd (sync_user d up reqs now u limit)) LatestBlock = count_list reqs LatestBlock"
  by (simp add: sync_user_def getMultipleAddressInfo_def getMultipleBalances_def count_list_append
           split: sum.splits option.splits)

lemma fetches_all: "(\<forall>t \<in> set txs. truthy (tx_block_height t)) \<Longrightarrow> fetches txs = length txs"
  by (simp add: fetches_def)

text \<open>
  C1, amended. In the two \<open>wallets.js\<close> transaction views a response with \<open>N\<close> transactions
  issues one chain-tip request for every transaction whose \<open>block_height\<close> is truthy:
  \<open>fetches txs\<close> of them, at most \<open>N\<close>, and exactly \<open>N\<close> when every height is truthy. The
  tip is not shared between the transactions. The \<open>sync.js\<close> views issue no chain-tip
  request.
\<close>

theorem chain_tip_fetches_per_response:
  "(getAddressByUserAndAddress d u a = Inr (Some r) \<and>
    rawaddr up (length reqs) a (min limit 50) offset = Inr ainfo \<and> ai_txs ainfo = Some txs \<longrightarrow>
      length (listed ''transactions'' (fst (address_transactions d up reqs u a limit offset)))
        = length txs \<and>
      count_list (snd (address_transactions d up reqs u a limit offset)) LatestBlock
        = count_list reqs LatestBlock + fetches txs) \<and>
   (getUserAddresses d u = Inr addrs \<and> addrs \<noteq> [] \<and>
    multiaddr up (length reqs) (join_bar (map ar_address addrs)) (min limit 100) offset = Inr minfo \<and>
    mi_txs minfo = Some txs \<longrightarrow>
      length (listed ''transactions'' (fst (user_transactions d up reqs u limit offset)))
        = length txs \<and>
      count_list (snd (user_transactions d up reqs u limit offset)) LatestBlock
        = count_list reqs LatestBlock + fetches txs) \<and>
   fetches txs \<le> length txs \<and>
   ((\<forall>t \<in> set txs. truthy (tx_block_height t)) \<longrightarrow> fetches txs = length txs) \<and>
   count_list (snd (sync_address d up reqs now u a limit offset)) LatestBlock
     = count_list reqs LatestBlock \<and>
   count_list (snd (sync_user d up reqs now u limit)) LatestBlock = count_list reqs LatestBlock"
proof (intro conjI impI)
  assume h: "getAddressByUserAndAddress d u a = Inr (Some r) \<and>
    rawaddr up (length reqs) a (min limit 50) offset = Inr ainfo \<and> ai_txs ainfo = Some txs"
  then have h1: "getAddressByUserAndAddress d u a = Inr (Some r)"
    and h2: "rawaddr up (length reqs) a (min limit 50) offset = Inr ainfo"
    and h3: "ai_txs ainfo = Some txs" by simp_all
  show "length (listed ''transactions'' (fst (address_transactions d up reqs u a limit offset)))
        = length txs"
    by (simp add: address_transactions_listing(1)[OF h1 h2 h3] formattedTransactions_length)
  show "count_list (snd (address_transactions d up reqs u a limit offset)) LatestBlock
        = count_list reqs LatestBlock + fetches txs"
    by (simp add: address_transactions_listing(2)[OF h1 h2 h3] count_list_append
          count_replicate_LatestBlock)
next
  assume h: "getUserAddresses d u = Inr addrs \<and> addrs \<noteq> [] \<and>
    multiaddr up (length reqs) (join_bar (map ar_address addrs)) (min limit 100) offset = Inr minfo \<and>
    mi_txs minfo = Some txs"
  then have h1: "getUserAddresses d u = Inr addrs" and h2: "addrs \<noteq> []"
    and h3: "multiaddr up (length reqs) (join_bar (map ar_address addrs)) (min limit 100) offset
               = Inr minfo"
    and h4: "mi_txs minfo = Some txs" by simp_all
  show "length (listed ''transactions'' (fst (user_transactions d up reqs u limit offset)))
        = length txs"
    by (simp add: user_transactions_listing(1)[OF h1 h2 h3 h4] formattedTransactions_length)
  show "count_list (snd (user_transactions d up reqs u limit offset)) LatestBlock
        = count_list reqs LatestBlock + fetches txs"
    by (simp add: user_transactions_listing(2)[OF h1 h2 h3 h4] count_list_append
          count_replicate_LatestBlock)
next
  show "fetches txs \<le> length txs" by (rule fetches_le)
next
  assume "\<forall>t \<in> set txs. truthy (tx_block_height t)"
  then show "fetches txs = length txs" by (rule fetches_all)
next
  show "count_list (snd (sync_address d up reqs now u a limit offset)) LatestBlock
     = count_list reqs LatestBlock" by (rule sync_address_no_tip)
next
  show "count_list (snd (sync_user d up reqs now u limit)) LatestBlock = count_list reqs LatestBlock"
    by (rule sync_user_no_tip)
qed

lemmas demo_defs = demo_db_def demo_explorer_def demo_tx_def demo_balance_def demo_txs_def
  demo_up_def demo_up_tip_down_def demo_record_def demo_addrs_def

text \<open>
  C1, as the specification states it: at most one chain-tip request for a response. The
  address view over four transactions, two of them with a truthy height, issues two.
\<close>

theorem chain_tip_shared_counterexample:
  "count_list (snd (address_transactions demo_db demo_up [] ''u'' ''A'' 10 0)) LatestBlock = 2"
  by (simp add: address_transactions_def demo_defs
        getAddressInfo_def formatTransaction_def calculateConfirmations_def getLatestBlock_def)

text \<open>The amended C1 at the example explorer: four transactions listed, two chain-tip requests.\<close>

theorem chain_tip_fetches_per_response_witness:
  "getAddressByUserAndAddress demo_db ''u'' ''A'' = Inr (Some demo_record) \<and>
   rawaddr demo_up (length ([]::request list)) ''A'' (min 10 50) 0
     = Inr \<lparr>ai_balance = demo_balance, ai_txs = Some demo_txs\<rparr> \<and>
   getUserAddresses demo_db ''u'' = Inr demo_addrs \<and> demo_addrs \<noteq> [] \<and>
   multiaddr demo_up (length ([]::request list)) (join_bar (map ar_address demo_addrs)) (min 10 100) 0
     = Inr \<lparr>mi_addresses = [], mi_txs = Some demo_txs\<rparr> \<and>
   length (listed ''transactions'' (fst (address_transactions demo_db demo_up [] ''u'' ''A'' 10 0))) = 4 \<and>
   length (listed ''transactions'' (fst (user_transactions demo_db demo_up [] ''u'' 10 0))) = 4 \<and>
   count_list (snd (address_transactions demo_db demo_up [] ''u'' ''A'' 10 0)) LatestBlock = 2 \<and>
   count_list (snd (user_transactions demo_db demo_up [] ''u'' 10 0)) LatestBlock = 2 \<and>
   count_list (snd (sync_address demo_db demo_up [] ''now'' ''u'' ''A'' 10 0)) LatestBlock = 0 \<and>
   count_list (snd (sync_user demo_db demo_up [] ''now'' ''u'' 10)) LatestBlock = 0"
  using chain_tip_fetches_per_response[of demo_db "''u''" "''A''" demo_record demo_up "[]" 10 0
      "\<lparr>ai_balance = demo_balance, ai_txs = Some demo_txs\<rparr>" demo_txs demo_addrs
      "\<lparr>mi_addresses = [], mi_txs = Some demo_txs\<rparr>" "''now''"]
  by (simp add: demo_defs fetches_def truthy_def)

lemma confirmations_formula:
  "max 0 (T - H + 1) = (if H \<le> T then T - H + 1 else (0::int))"
  by auto

lemma confirmations_nth:
  assumes "i < length txs"
  shows "get_field ''confirmations'' (fst (formattedTransactions up reqs txs) ! i) =
     Some (json_int (case tx_block_height (txs ! i) of
        None \<Rightarrow> 0
      | Some h \<Rightarrow> if h = 0 then 0
                 else (case latestblock up (length reqs + fetches (take i txs)) of
                         Inl e \<Rightarrow> 0 | Inr b \<Rightarrow> max 0 (height b - h + 1))))"
  by (simp add: formattedTransactions_nth[OF assms] formatTransaction_confirmations
        split: option.splits)

text \<open>
  C3, amended. In the two \<open>wallets.js\<close> transaction views the \<open>i\<close>-th transaction carries
  \<open>confirmations\<close>: 0 when its height is \<open>null\<close>, and, when its height \<open>H\<close> is known and not 0
  and its chain-tip request is answered with the tip \<open>T\<close>, \<open>T - H + 1\<close> for \<open>H \<le> T\<close> and 0
  for \<open>T < H\<close>. A transaction with a \<open>null\<close> height issues no request. The transactions of
  the \<open>sync.js\<close> views carry no \<open>confirmations\<close> field.
\<close>

theorem confirmations_of_transaction_views:
  assumes "i < length txs"
  shows
  "(getAddressByUserAndAddress d u a = Inr (Some r) \<and>
    rawaddr up (length reqs) a (min limit 50) offset = Inr ainfo \<and> ai_txs ainfo = Some txs \<longrightarrow>
      (tx_block_height (txs ! i) = None \<longrightarrow>
         confirmations_at (fst (address_transactions d up reqs u a limit offset)) i
           = Some (json_int 0)) \<and>
      (\<forall>H b. tx_block_height (txs ! i) = Some H \<and> H \<noteq> 0 \<and>
              latestblock up (Suc (length reqs) + fetches (take i txs)) = Inr b \<longrightarrow>
         confirmations_at (fst (address_transactions d up reqs u a limit offset)) i
           = Some (json_int (if H \<le> height b then height b - H + 1 else 0)))) \<and>
   (getUserAddresses d u = Inr addrs \<and> addrs \<noteq> [] \<and>
    multiaddr up (length reqs) (join_bar (map ar_address addrs)) (min limit 100) offset = Inr minfo \<and>
    mi_txs minfo = Some txs \<longrightarrow>
      (tx_block_height (txs ! i) = None \<longrightarrow>
         confirmations_at (fst (user_transactions d up reqs u limit offset)) i
           = Some (json_int 0)) \<and>
      (\<forall>H b. tx_block_height (txs ! i) = Some H \<and> H \<noteq> 0 \<and>
              latestblock up (Suc (length reqs) + fetches (take i txs)) = Inr b \<longrightarrow>
         confirmations_at (fst (user_transactions d up reqs u limit offset)) i
           = Some (json_int (if H \<le> height b then height b - H + 1 else 0)))) \<and>
   (tx_block_height t = None \<longrightarrow> snd (formatTransaction up reqs t) = reqs) \<and>
   get_field ''confirmations'' (syncTransaction t) = None"
proof (intro conjI impI allI)
  assume h: "getAddressByUserAndAddress d u a = Inr (Some r) \<and>
    rawaddr up (length reqs) a (min limit 50) offset = Inr ainfo \<and> ai_txs ainfo = Some txs"
  then have h1: "getAddressByUserAndAddress d u a = Inr (Some r)"
    and h2: "rawaddr up (length reqs) a (min limit 50) offset = Inr ainfo"
    and h3: "ai_txs ainfo = Some txs" by simp_all
  have l: "listed ''transactions'' (fst (address_transactions d up reqs u a limit offset)) =
           fst (formattedTransactions up (reqs @ [RawAddr a (min limit 50) offset]) txs)"
    by (rule address_transactions_listing(1)[OF h1 h2 h3])
  {
    assume "tx_block_height (txs ! i) = None"
    then show "confirmations_at (fst (address_transactions d up reqs u a limit offset)) i
           = Some (json_int 0)"
      by (simp add: confirmations_at_def l confirmations_nth[OF assms])
  }
  {
    fix H b
    assume "tx_block_height (txs ! i) = Some H \<and> H \<noteq> 0 \<and>
              latestblock up (Suc (length reqs) + fetches (take i txs)) = Inr b"
    then show "confirmations_at (fst (address_transactions d up reqs u a limit offset)) i
           = Some (json_int (if H \<le> height b then height b - H + 1 else 0))"
      by (simp add: confirmations_at_def l confirmations_nth[OF assms] confirmations_formula)
  }
next
  assume h: "getUserAddresses d u = Inr addrs \<and> addrs \<noteq> [] \<and>
    multiaddr up (length reqs) (join_bar (map ar_address addrs)) (min limit 100) offset = Inr minfo \<and>
    mi_txs minfo = Some txs"
  then have h1: "getUserAddresses d u = Inr addrs" and h2: "addrs \<noteq> []"
    and h3: "multiaddr up (length reqs) (join_bar (map ar_address addrs)) (min limit 100) offset
               = Inr minfo"
    and h4: "mi_txs minfo = Some txs" by simp_all
  have l: "listed ''transactions'' (fst (user_transactions d up reqs u limit offset)) =
           fst (formattedTransactions up
             (reqs @ [MultiAddr (join_bar (map ar_address addrs)) (min limit 100) offset]) txs)"
    by (rule user_transactions_listing(1)[OF h1 h2 h3 h4])
  {
    assume "tx_block_height (txs ! i) = None"
    then show "confirmations_at (fst (user_transactions d up reqs u limit offset)) i
           = Some (json_int 0)"
      by (simp add: confirmations_at_def l confirmations_nth[OF assms])
  }
  {
    fix H b
    assume "tx_block_height (txs ! i) = Some H \<and> H \<noteq> 0 \<and>
              latestblock up (Suc (length reqs) + fetches (take i txs)) = Inr b"
    then show "confirmations_at (fst (user_transactions d up reqs u limit offset)) i
           = Some (json_int (if H \<le> height b then height b - H + 1 else 0))"
      by (simp add: confirmations_at_def l confirmations_nth[OF assms] confirmations_formula)
  }
next
  assume "tx_block_height t = None"
  then show "snd (formatTransaction up reqs t) = reqs"
    by (simp add: formatTransaction_reqs truthy_def)
next
  show "get_field ''confirmations'' (syncTransaction t) = None"
    by (simp add: syncTransaction_def)
qed

text \<open>
  C3, as the specification states it: every normalized transaction of the aggregation views
  carries \<open>confirmations\<close>. None of the four transactions of the \<open>sync.js\<close> address view
  does.
\<close>

theorem sync_views_lack_confirmations_counterexample:
  "map (get_field ''confirmations'')
     (listed ''transactions'' (fst (sync_address demo_db demo_up [] ''now'' ''u'' ''A'' 10 0)))
   = [None, None, None, None]"
  by (simp add: sync_address_def demo_defs getAddressInfo_def syncTransaction_def
        listed_def data_field_def ok_response_def)

text \<open>
  The amended C3 at the example explorer: height 100 under the tip 105 gives 6
  confirmations, a \<open>null\<close> height gives 0.
\<close>

theorem confirmations_of_transaction_views_witness:
  "(0::nat) < length demo_txs \<and> (2::nat) < length demo_txs \<and>
   getAddressByUserAndAddress demo_db ''u'' ''A'' = Inr (Some demo_record) \<and>
   rawaddr demo_up (length ([]::request list)) ''A'' (min 10 50) 0
     = Inr \<lparr>ai_balance = demo_balance, ai_txs = Some demo_txs\<rparr> \<and>
   getUserAddresses demo_db ''u'' = Inr demo_addrs \<and> demo_addrs \<noteq> [] \<and>
   multiaddr demo_up (length ([]::request list)) (join_bar (map ar_address demo_addrs)) (min 10 100) 0
     = Inr \<lparr>mi_addresses = [], mi_txs = Some demo_txs\<rparr> \<and>
   tx_block_height (demo_txs ! 0) = Some 100 \<and> tx_block_height (demo_txs ! 2) = None \<and>
   latestblock demo_up (Suc (length ([]::request list)) + fetches (take 0 demo_txs))
     = Inr \<lparr>height = 105, block_hash = ''tip'', block_time = 0\<rparr> \<and>
   confirmations_at (fst (address_transactions demo_db demo_up [] ''u'' ''A'' 10 0)) 0
     = Some (json_int 6) \<and>
   confirmations_at (fst (address_transactions demo_db demo_up [] ''u'' ''A'' 10 0)) 2
     = Some (json_int 0) \<and>
   confirmations_at (fst (user_transactions demo_db demo_up [] ''u'' 10 0)) 0
     = Some (json_int 6) \<and>
   confirmations_at (fst (user_transactions demo_db demo_up [] ''u'' 10 0)) 2
     = Some (json_int 0) \<and>
   snd (formatTransaction demo_up [] (demo_tx None)) = [] \<and>
   get_field ''confirmations'' (syncTransaction (demo_tx None)) = None"
  using confirmations_of_transaction_views[of 0 demo_txs demo_db "''u''" "''A''" demo_record
      demo_up "[]" 10 0 "\<lparr>ai_balance = demo_balance, ai_txs = Some demo_txs\<rparr>" demo_addrs
      "\<lparr>mi_addresses = [], mi_txs = Some demo_txs\<rparr>" "demo_tx None"]
    confirmations_of_transaction_views[of 2 demo_txs demo_db "''u''" "''A''" demo_record
      demo_up "[]" 10 0 "\<lparr>ai_balance = demo_balance, ai_txs = Some demo_txs\<rparr>" demo_addrs
      "\<lparr>mi_addresses = [], mi_txs = Some demo_txs\<rparr>" "demo_tx None"]
  by (simp add: demo_defs fetches_def truthy_def)

lemma formatTransaction_entry:
  "fst (formatTransaction up reqs t) =
     JObj [(''hash'', JStr (tx_hash t)),
      (''block_height'', (case tx_block_height t of None \<Rightarrow> JNull | Some h \<Rightarrow> JNum (of_int h))),
      (''time'', JNum (of_int (tx_time t))),
      (''fee'', (case tx_fee t of None \<Rightarrow> JNum 0
          | Some f \<Rightarrow> if f = 0 then JNum 0 else JNum (satoshisToBTC (of_int f)))),
      (''confirmations'', JNum (of_int (case tx_block_height t of None \<Rightarrow> 0 | Some h \<Rightarrow> if h = 0 then 0 else (case latestblock up (length reqs) of Inl e \<Rightarrow> 0 | Inr b \<Rightarrow> max 0 (height b - h + 1))))),
      (''inputs'', JArr (map (\<lambda>input. JObj [(''prev_out'',
          (case in_prev_out input of None \<Rightarrow> JNull
           | Some po \<Rightarrow> JObj [(''addr'', (case po_addr po of None \<Rightarrow> JNull | Some s \<Rightarrow> JStr s)),
                             (''value'', JNum (satoshisToBTC (of_int (po_value po))))]))])
        (tx_inputs t))),
      (''out'', JArr (map (\<lambda>output. JObj
          [(''addr'', (case out_addr output of None \<Rightarrow> JNull | Some s \<Rightarrow> JStr s)),
           (''value'', JNum (satoshisToBTC (of_int (out_value output))))])
        (tx_out t)))]"
  by (simp add: formatTransaction_def calculateConfirmations_eq json_int_def json_opt_int_def
        json_opt_str_def format_fee_def format_input_def format_output_def
      split: option.splits)

lemma entry_nth:
  assumes "i < length txs"
  shows "fst (formattedTransactions up reqs txs) ! i =
     JObj [(''hash'', JStr (tx_hash (txs ! i))),
      (''block_height'', (case tx_block_height (txs ! i) of None \<Rightarrow> JNull | Some h \<Rightarrow> JNum (of_int h))),
      (''time'', JNum (of_int (tx_time (txs ! i)))),
      (''fee'', (case tx_fee (txs ! i) of None \<Rightarrow> JNum 0
          | Some f \<Rightarrow> if f = 0 then JNum 0 else JNum (satoshisToBTC (of_int f)))),
      (''confirmations'', JNum (of_int (case tx_block_height (txs ! i) of None \<Rightarrow> 0 | Some h \<Rightarrow> if h = 0 then 0 else (case latestblock up (length reqs + fetches (take i txs)) of Inl e \<Rightarrow> 0 | Inr b \<Rightarrow> max 0 (height b - h + 1))))),
      (''inputs'', JArr (map (\<lambda>input. JObj [(''prev_out'',
          (case in_prev_out input of None \<Rightarrow> JNull
           | Some po \<Rightarrow> JObj [(''addr'', (case po_addr po of None \<Rightarrow> JNull | Some s \<Rightarrow> JStr s)),
                             (''value'', JNum (satoshisToBTC (of_int (po_value po))))]))])
        (tx_inputs (txs ! i)))),
      (''out'', JArr (map (\<lambda>output. JObj
          [(''addr'', (case out_addr output of None \<Rightarrow> JNull | Some s \<Rightarrow> JStr s)),
           (''value'', JNum (satoshisToBTC (of_int (out_value output))))])
        (tx_out (txs ! i))))]"
  by (simp add: formattedTransactions_nth[OF assms] formatTransaction_entry split: option.splits)

lemma satoshisToBTC_exact:
  "satoshisToBTC 0 = 0" "satoshisToBTC 50000000 = 1 / 2" "satoshisToBTC 5000000000 = 50"
proof -
  show "satoshisToBTC 0 = 0" by (simp add: satoshisToBTC_def round_double_def)
  show "satoshisToBTC 50000000 = 1 / 2"
    unfolding satoshisToBTC_def
    by (subst round_double_normal[where e = "-1"])
       (simp_all add: round_even_def Let_def floor_rat_numeral)
  show "satoshisToBTC 5000000000 = 50"
    unfolding satoshisToBTC_def
    by (subst round_double_normal[where e = 5])
       (simp_all add: round_even_def Let_def floor_rat_numeral)
qed

text \<open>
  C5. When the primary fetch of a \<open>wallets.js\<close> transaction view succeeds, the view answers
  200 with \<open>success: true\<close> whatever the chain-tip requests return, and lists every
  transaction: the \<open>i\<close>-th entry carries the hash, height, time, converted fee, inputs
  and outputs of the \<open>i\<close>-th upstream transaction and a \<open>confirmations\<close> number, which is 0
  when the chain-tip request of that transaction fails. \<open>calculateConfirmations\<close> itself
  returns 0 when its request fails.
\<close>

theorem chain_tip_failure_degrades:
  "(getAddressByUserAndAddress d u a = Inr (Some r) \<and>
    rawaddr up (length reqs) a (min limit 50) offset = Inr ainfo \<and> ai_txs ainfo = Some txs \<longrightarrow>
      resp_status (fst (address_transactions d up reqs u a limit offset)) = 200 \<and>
      get_field ''success'' (resp_body (fst (address_transactions d up reqs u a limit offset))) = Some (JBool True) \<and>
      length (listed ''transactions'' (fst (address_transactions d up reqs u a limit offset))) = length txs \<and>
      (\<forall>i e. i < length txs \<and> latestblock up (Suc (length reqs) + fetches (take i txs)) = Inl e \<longrightarrow>
         confirmations_at (fst (address_transactions d up reqs u a limit offset)) i = Some (json_int 0)) \<and>
      (\<forall>i. i < length txs \<longrightarrow>
         (\<exists>c. listed ''transactions'' (fst (address_transactions d up reqs u a limit offset)) ! i =
                JObj [(''hash'', JStr (tx_hash (txs ! i))),
                 (''block_height'', (case tx_block_height (txs ! i) of None \<Rightarrow> JNull | Some h \<Rightarrow> JNum (of_int h))),
                 (''time'', JNum (of_int (tx_time (txs ! i)))),
                 (''fee'', (case tx_fee (txs ! i) of None \<Rightarrow> JNum 0
                     | Some f \<Rightarrow> if f = 0 then JNum 0 else JNum (satoshisToBTC (of_int f)))),
                 (''confirmations'', JNum (of_int c)),
                 (''inputs'', JArr (map (\<lambda>input. JObj [(''prev_out'',
                     (case in_prev_out input of None \<Rightarrow> JNull
                      | Some po \<Rightarrow> JObj [(''addr'', (case po_addr po of None \<Rightarrow> JNull | Some s \<Rightarrow> JStr s)),
                                        (''value'', JNum (satoshisToBTC (of_int (po_value po))))]))])
                   (tx_inputs (txs ! i)))),
                 (''out'', JArr (map (\<lambda>output. JObj
                     [(''addr'', (case out_addr output of None \<Rightarrow> JNull | Some s \<Rightarrow> JStr s)),
                      (''value'', JNum (satoshisToBTC (of_int (out_value output))))])
                   (tx_out (txs ! i))))] \<and>
              (\<forall>e. latestblock up (Suc (length reqs) + fetches (take i txs)) = Inl e \<longrightarrow> c = 0)))) \<and>
   (getUserAddresses d u = Inr addrs \<and> addrs \<noteq> [] \<and>
    multiaddr up (length reqs) (join_bar (map ar_address addrs)) (min limit 100) offset = Inr minfo \<and>
    mi_txs minfo = Some txs \<longrightarrow>
      resp_status (fst (user_transactions d up reqs u limit offset)) = 200 \<and>
      get_field ''success'' (resp_body (fst (user_transactions d up reqs u limit offset))) = Some (JBool True) \<and>
      length (listed ''transactions'' (fst (user_transactions d up reqs u limit offset))) = length txs \<and>
      (\<forall>i e. i < length txs \<and> latestblock up (Suc (length reqs) + fetches (take i txs)) = Inl e \<longrightarrow>
         confirmations_at (fst (user_transactions d up reqs u limit offset)) i = Some (json_int 0)) \<and>
      (\<forall>i. i < length txs \<longrightarrow>
         (\<exists>c. listed ''transactions'' (fst (user_transactions d up reqs u limit offset)) ! i =
                JObj [(''hash'', JStr (tx_hash (txs ! i))),
                 (''block_height'', (case tx_block_height (txs ! i) of None \<Rightarrow> JNull | Some h \<Rightarrow> JNum (of_int h))),
                 (''time'', JNum (of_int (tx_time (txs ! i)))),
                 (''fee'', (case tx_fee (txs ! i) of None \<Rightarrow> JNum 0
                     | Some f \<Rightarrow> if f = 0 then JNum 0 else JNum (satoshisToBTC (of_int f)))),
                 (''confirmations'', JNum (of_int c)),
                 (''inputs'', JArr (map (\<lambda>input. JObj [(''prev_out'',
                     (case in_prev_out input of None \<Rightarrow> JNull
                      | Some po \<Rightarrow> JObj [(''addr'', (case po_addr po of None \<Rightarrow> JNull | Some s \<Rightarrow> JStr s)),
                                        (''value'', JNum (satoshisToBTC (of_int (po_value po))))]))])
                   (tx_inputs (txs ! i)))),
                 (''out'', JArr (map (\<lambda>output. JObj
                     [(''addr'', (case out_addr output of None \<Rightarrow> JNull | Some s \<Rightarrow> JStr s)),
                      (''value'', JNum (satoshisToBTC (of_int (out_value output))))])
                   (tx_out (txs ! i))))] \<and>
              (\<forall>e. latestblock up (Suc (length reqs) + fetches (take i txs)) = Inl e \<longrightarrow> c = 0)))) \<and>
   (latestblock up (length reqs) = Inl e' \<longrightarrow>
      calculateConfirmations up reqs h = (0, reqs @ [LatestBlock]))"
proof (intro conjI impI allI)
  assume h: "getAddressByUserAndAddress d u a = Inr (Some r) \<and>
    rawaddr up (length reqs) a (min limit 50) offset = Inr ainfo \<and> ai_txs ainfo = Some txs"
  then have h1: "getAddressByUserAndAddress d u a = Inr (Some r)"
    and h2: "rawaddr up (length reqs) a (min limit 50) offset = Inr ainfo"
    and h3: "ai_txs ainfo = Some txs" by simp_all
  note l = address_transactions_listing[OF h1 h2 h3]
  show "resp_status (fst (address_transactions d up reqs u a limit offset)) = 200" by (rule l(3))
  show "get_field ''success'' (resp_body (fst (address_transactions d up reqs u a limit offset))) = Some (JBool True)" by (rule l(4))
  show "length (listed ''transactions'' (fst (address_transactions d up reqs u a limit offset))) = length txs"
    by (simp add: l(1) formattedTransactions_length)
  show "confirmations_at (fst (address_transactions d up reqs u a limit offset)) i = Some (json_int 0)"
    if "i < length txs \<and> latestblock up (Suc (length reqs) + fetches (take i txs)) = Inl e" for i e
    using that by (simp add: confirmations_at_def l(1) confirmations_nth split: option.splits)
  show "\<exists>c. listed ''transactions'' (fst (address_transactions d up reqs u a limit offset)) ! i =
                JObj [(''hash'', JStr (tx_hash (txs ! i))),
                 (''block_height'', (case tx_block_height (txs ! i) of None \<Rightarrow> JNull | Some h \<Rightarrow> JNum (of_int h))),
                 (''time'', JNum (of_int (tx_time (txs ! i)))),
                 (''fee'', (case tx_fee (txs ! i) of None \<Rightarrow> JNum 0
                     | Some f \<Rightarrow> if f = 0 then JNum 0 else JNum (satoshisToBTC (of_int f)))),
                 (''confirmations'', JNum (of_int c)),
                 (''inputs'', JArr (map (\<lambda>input. JObj [(''prev_out'',
                     (case in_prev_out input of None \<Rightarrow> JNull
                      | Some po \<Rightarrow> JObj [(''addr'', (case po_addr po of None \<Rightarrow> JNull | Some s \<Rightarrow> JStr s)),
                                        (''value'', JNum (satoshisToBTC (of_int (po_value po))))]))])
                   (tx_inputs (txs ! i)))),
                 (''out'', JArr (map (\<lambda>output. JObj
                     [(''addr'', (case out_addr output of None \<Rightarrow> JNull | Some s \<Rightarrow> JStr s)),
                      (''value'', JNum (satoshisToBTC (of_int (out_value output))))])
                   (tx_out (txs ! i))))] \<and>
              (\<forall>e. latestblock up (Suc (length reqs) + fetches (take i txs)) = Inl e \<longrightarrow> c = 0)"
    if i: "i < length txs" for i
  proof -
    have E: "listed ''transactions'' (fst (address_transactions d up reqs u a limit offset)) ! i =
                JObj [(''hash'', JStr (tx_hash (txs ! i))),
                 (''block_height'', (case tx_block_height (txs ! i) of None \<Rightarrow> JNull | Some h \<Rightarrow> JNum (of_int h))),
                 (''time'', JNum (of_int (tx_time (txs ! i)))),
                 (''fee'', (case tx_fee (txs ! i) of None \<Rightarrow> JNum 0
                     | Some f \<Rightarrow> if f = 0 then JNum 0 else JNum (satoshisToBTC (of_int f)))),
                 (''confirmations'', JNum (of_int (case tx_block_height (txs ! i) of None \<Rightarrow> 0 | Some h \<Rightarrow> if h = 0 then 0 else (case latestblock up (Suc (length reqs) + fetches (take i txs)) of Inl e \<Rightarrow> 0 | Inr b \<Rightarrow> max 0 (height b - h + 1))))),
                 (''inputs'', JArr (map (\<lambda>input. JObj [(''prev_out'',
                     (case in_prev_out input of None \<Rightarrow> JNull
                      | Some po \<Rightarrow> JObj [(''addr'', (case po_addr po of None \<Rightarrow> JNull | Some s \<Rightarrow> JStr s)),
                                        (''value'', JNum (satoshisToBTC (of_int (po_value po))))]))])
                   (tx_inputs (txs ! i)))),
                 (''out'', JArr (map (\<lambda>output. JObj
                     [(''addr'', (case out_addr output of None \<Rightarrow> JNull | Some s \<Rightarrow> JStr s)),
                      (''value'', JNum (satoshisToBTC (of_int (out_value output))))])
                   (tx_out (txs ! i))))]"
      unfolding l(1) by (simp add: entry_nth[OF i] split: option.splits)
    have Z: "(case tx_block_height (txs ! i) of None \<Rightarrow> 0 | Some h \<Rightarrow> if h = 0 then 0 else (case latestblock up (Suc (length reqs) + fetches (take i txs)) of Inl e \<Rightarrow> 0 | Inr b \<Rightarrow> max 0 (height b - h + 1))) = 0"
      if "latestblock up (Suc (length reqs) + fetches (take i txs)) = Inl e" for e
      using that by (simp split: option.splits)
    show ?thesis
      by (intro exI[of _ "(case tx_block_height (txs ! i) of None \<Rightarrow> 0 | Some h \<Rightarrow> if h = 0 then 0 else (case latestblock up (Suc (length reqs) + fetches (take i txs)) of Inl e \<Rightarrow> 0 | Inr b \<Rightarrow> max 0 (height b - h + 1)))"] conjI allI impI) (rule E, erule Z)
  qed
next
  assume h: "getUserAddresses d u = Inr addrs \<and> addrs \<noteq> [] \<and>
    multiaddr up (length reqs) (join_bar (map ar_address addrs)) (min limit 100) offset = Inr minfo \<and>
    mi_txs minfo = Some txs"
  then have h1: "getUserAddresses d u = Inr addrs" and h2: "addrs \<noteq> []"
    and h3: "multiaddr up (length reqs) (join_bar (map ar_address addrs)) (min limit 100) offset
               = Inr minfo"
    and h4: "mi_txs minfo = Some txs" by simp_all
  note l = user_transactions_listing[OF h1 h2 h3 h4]
  show "resp_status (fst (user_transactions d up reqs u limit offset)) = 200" by (rule l(3))
  show "get_field ''success'' (resp_body (fst (user_transactions d up reqs u limit offset))) = Some (JBool True)" by (rule l(4))
  show "length (listed ''transactions'' (fst (user_transactions d up reqs u limit offset))) = length txs"
    by (simp add: l(1) formattedTransactions_length)
  show "confirmations_at (fst (user_transactions d up reqs u limit offset)) i = Some (json_int 0)"
    if "i < length txs \<and> latestblock up (Suc (length reqs) + fetches (take i txs)) = Inl e" for i e
    using that by (simp add: confirmations_at_def l(1) confirmations_nth split: option.splits)
  show "\<exists>c. listed ''transactions'' (fst (user_transactions d up reqs u limit offset)) ! i =
                JObj [(''hash'', JStr (tx_hash (txs ! i))),
                 (''block_height'', (case tx_block_height (txs ! i) of None \<Rightarrow> JNull | Some h \<Rightarrow> JNum (of_int h))),
                 (''time'', JNum (of_int (tx_time (txs ! i)))),
                 (''fee'', (case tx_fee (txs ! i) of None \<Rightarrow> JNum 0
                     | Some f \<Rightarrow> if f = 0 then JNum 0 else JNum (satoshisToBTC (of_int f)))),
                 (''confirmations'', JNum (of_int c)),
                 (''inputs'', JArr (map (\<lambda>input. JObj [(''prev_out'',
                     (case in_prev_out input of None \<Rightarrow> JNull
                      | Some po \<Rightarrow> JObj [(''addr'', (case po_addr po of None \<Rightarrow> JNull | Some s \<Rightarrow> JStr s)),
                                        (''value'', JNum (satoshisToBTC (of_int (po_value po))))]))])
                   (tx_inputs (txs ! i)))),
                 (''out'', JArr (map (\<lambda>output. JObj
                     [(''addr'', (case out_addr output of None \<Rightarrow> JNull | Some s \<Rightarrow> JStr s)),
                      (''value'', JNum (satoshisToBTC (of_int (out_value output))))])
                   (tx_out (txs ! i))))] \<and>
              (\<forall>e. latestblock up (Suc (length reqs) + fetches (take i txs)) = Inl e \<longrightarrow> c = 0)"
    if i: "i < length txs" for i
  proof -
    have E: "listed ''transactions'' (fst (user_transactions d up reqs u limit offset)) ! i =
                JObj [(''hash'', JStr (tx_hash (txs ! i))),
                 (''block_height'', (case tx_block_height (txs ! i) of None \<Rightarrow> JNull | Some h \<Rightarrow> JNum (of_int h))),
                 (''time'', JNum (of_int (tx_time (txs ! i)))),
                 (''fee'', (case tx_fee (txs ! i) of None \<Rightarrow> JNum 0
                     | Some f \<Rightarrow> if f = 0 then JNum 0 else JNum (satoshisToBTC (of_int f)))),
                 (''confirmations'', JNum (of_int (case tx_block_height (txs ! i) of None \<Rightarrow> 0 | Some h \<Rightarrow> if h = 0 then 0 else (case latestblock up (Suc (length reqs) + fetches (take i txs)) of Inl e \<Rightarrow> 0 | Inr b \<Rightarrow> max 0 (height b - h + 1))))),
                 (''inputs'', JArr (map (\<lambda>input. JObj [(''prev_out'',
                     (case in_prev_out input of None \<Rightarrow> JNull
                      | Some po \<Rightarrow> JObj [(''addr'', (case po_addr po of None \<Rightarrow> JNull | Some s \<Rightarrow> JStr s)),
                                        (''value'', JNum (satoshisToBTC (of_int (po_value po))))]))])
                   (tx_inputs (txs ! i)))),
                 (''out'', JArr (map (\<lambda>output. JObj
                     [(''addr'', (case out_addr output of None \<Rightarrow> JNull | Some s \<Rightarrow> JStr s)),
                      (''value'', JNum (satoshisToBTC (of_int (out_value output))))])
                   (tx_out (txs ! i))))]"
      unfolding l(1) by (simp add: entry_nth[OF i] split: option.splits)
    have Z: "(case tx_block_height (txs ! i) of None \<Rightarrow> 0 | Some h \<Rightarrow> if h = 0 then 0 else (case latestblock up (Suc (length reqs) + fetches (take i txs)) of Inl e \<Rightarrow> 0 | Inr b \<Rightarrow> max 0 (height b - h + 1))) = 0"
      if "latestblock up (Suc (length reqs) + fetches (take i txs)) = Inl e" for e
      using that by (simp split: option.splits)
    show ?thesis
      by (intro exI[of _ "(case tx_block_height (txs ! i) of None \<Rightarrow> 0 | Some h \<Rightarrow> if h = 0 then 0 else (case latestblock up (Suc (length reqs) + fetches (take i txs)) of Inl e \<Rightarrow> 0 | Inr b \<Rightarrow> max 0 (height b - h + 1)))"] conjI allI impI) (rule E, erule Z)
  qed
next
  assume "latestblock up (length reqs) = Inl e'"
  then show "calculateConfirmations up reqs h = (0, reqs @ [LatestBlock])"
    by (simp add: calculateConfirmations_eq)
qed

text \<open>
  C5 at the example explorer whose chain-tip endpoint times out: both views answer 200 and
  list the transaction with its hash, height, time, fee of 0.5, the coinbase input, the
  input from \<open>A\<close> and the output to \<open>B\<close> of 50 each, and 0 confirmations.
\<close>

theorem chain_tip_failure_degrades_witness:
  "getAddressByUserAndAddress demo_db ''u'' ''A'' = Inr (Some demo_record) \<and>
   rawaddr demo_up_full_tip_down (length ([]::request list)) ''A'' (min 10 50) 0
     = Inr \<lparr>ai_balance = demo_balance, ai_txs = Some [demo_full_tx]\<rparr> \<and>
   getUserAddresses demo_db ''u'' = Inr demo_addrs \<and> demo_addrs \<noteq> [] \<and>
   multiaddr demo_up_full_tip_down (length ([]::request list)) (join_bar (map ar_address demo_addrs))
       (min 10 100) 0
     = Inr \<lparr>mi_addresses = [], mi_txs = Some [demo_full_tx]\<rparr> \<and>
   (0::nat) < length [demo_full_tx] \<and>
   latestblock demo_up_full_tip_down
       (Suc (length ([]::request list)) + fetches (take 0 [demo_full_tx])) = Inl ''timeout'' \<and>
   latestblock demo_up_full_tip_down (length ([]::request list)) = Inl ''timeout'' \<and>
   resp_status (fst (address_transactions demo_db demo_up_full_tip_down [] ''u'' ''A'' 10 0)) = 200 \<and>
   listed ''transactions'' (fst (address_transactions demo_db demo_up_full_tip_down [] ''u'' ''A'' 10 0))
     = [JObj [(''hash'', JStr ''f''), (''block_height'', JNum 100), (''time'', JNum 7),
              (''fee'', JNum (1 / 2)), (''confirmations'', JNum 0),
              (''inputs'', JArr [JObj [(''prev_out'', JNull)],
                                 JObj [(''prev_out'', JObj [(''addr'', JStr ''A''),
                                                            (''value'', JNum 50)])]]),
              (''out'', JArr [JObj [(''addr'', JStr ''B''), (''value'', JNum 50)]])]] \<and>
   resp_status (fst (user_transactions demo_db demo_up_full_tip_down [] ''u'' 10 0)) = 200 \<and>
   listed ''transactions'' (fst (user_transactions demo_db demo_up_full_tip_down [] ''u'' 10 0))
     = [JObj [(''hash'', JStr ''f''), (''block_height'', JNum 100), (''time'', JNum 7),
              (''fee'', JNum (1 / 2)), (''confirmations'', JNum 0),
              (''inputs'', JArr [JObj [(''prev_out'', JNull)],
                                 JObj [(''prev_out'', JObj [(''addr'', JStr ''A''),
                                                            (''value'', JNum 50)])]]),
              (''out'', JArr [JObj [(''addr'', JStr ''B''), (''value'', JNum 50)]])]] \<and>
   calculateConfirmations demo_up_full_tip_down [] 100 = (0, [LatestBlock])"
proof -
  note T = chain_tip_failure_degrades[of demo_db "''u''" "''A''" demo_record
      demo_up_full_tip_down "[]" 10 0
      "\<lparr>ai_balance = demo_balance, ai_txs = Some [demo_full_tx]\<rparr>" "[demo_full_tx]" demo_addrs
      "\<lparr>mi_addresses = [], mi_txs = Some [demo_full_tx]\<rparr>" "''timeout''" 100]
  have A: "getAddressByUserAndAddress demo_db ''u'' ''A'' = Inr (Some demo_record) \<and>
      rawaddr demo_up_full_tip_down (length ([]::request list)) ''A'' (min 10 50) 0
        = Inr \<lparr>ai_balance = demo_balance, ai_txs = Some [demo_full_tx]\<rparr> \<and>
      ai_txs \<lparr>ai_balance = demo_balance, ai_txs = Some [demo_full_tx]\<rparr> = Some [demo_full_tx]"
    by (simp add: demo_defs demo_up_full_tip_down_def)
  have U: "getUserAddresses demo_db ''u'' = Inr demo_addrs \<and> demo_addrs \<noteq> [] \<and>
      multiaddr demo_up_full_tip_down (length ([]::request list))
          (join_bar (map ar_address demo_addrs)) (min 10 100) 0
        = Inr \<lparr>mi_addresses = [], mi_txs = Some [demo_full_tx]\<rparr> \<and>
      mi_txs \<lparr>mi_addresses = [], mi_txs = Some [demo_full_tx]\<rparr> = Some [demo_full_tx]"
    by (simp add: demo_defs demo_up_full_tip_down_def)
  have tip: "latestblock demo_up_full_tip_down n = Inl ''timeout''" for n
    by (simp add: demo_defs demo_up_full_tip_down_def)
  let ?E = "[JObj [(''hash'', JStr ''f''), (''block_height'', JNum 100), (''time'', JNum 7),
              (''fee'', JNum (1 / 2)), (''confirmations'', JNum 0),
              (''inputs'', JArr [JObj [(''prev_out'', JNull)],
                                 JObj [(''prev_out'', JObj [(''addr'', JStr ''A''),
                                                            (''value'', JNum 50)])]]),
              (''out'', JArr [JObj [(''addr'', JStr ''B''), (''value'', JNum 50)]])]]"
  from T A have TA: "resp_status (fst (address_transactions demo_db demo_up_full_tip_down [] ''u'' ''A'' 10 0)) = 200"
    and LA: "length (listed ''transactions''
        (fst (address_transactions demo_db demo_up_full_tip_down [] ''u'' ''A'' 10 0))) = length [demo_full_tx]"
    and EA: "\<forall>i. i < length [demo_full_tx] \<longrightarrow>
         (\<exists>c. listed ''transactions''
                (fst (address_transactions demo_db demo_up_full_tip_down [] ''u'' ''A'' 10 0)) ! i =
                JObj [(''hash'', JStr (tx_hash ([demo_full_tx] ! i))),
                 (''block_height'', (case tx_block_height ([demo_full_tx] ! i) of None \<Rightarrow> JNull | Some h \<Rightarrow> JNum (of_int h))),
                 (''time'', JNum (of_int (tx_time ([demo_full_tx] ! i)))),
                 (''fee'', (case tx_fee ([demo_full_tx] ! i) of None \<Rightarrow> JNum 0
                     | Some f \<Rightarrow> if f = 0 then JNum 0 else JNum (satoshisToBTC (of_int f)))),
                 (''confirmations'', JNum (of_int c)),
                 (''inputs'', JArr (map (\<lambda>input. JObj [(''prev_out'',
                     (case in_prev_out input of None \<Rightarrow> JNull
                      | Some po \<Rightarrow> JObj [(''addr'', (case po_addr po of None \<Rightarrow> JNull | Some s \<Rightarrow> JStr s)),
                                        (''value'', JNum (satoshisToBTC (of_int (po_value po))))]))])
                   (tx_inputs ([demo_full_tx] ! i)))),
                 (''out'', JArr (map (\<lambda>output. JObj
                     [(''addr'', (case out_addr output of None \<Rightarrow> JNull | Some s \<Rightarrow> JStr s)),
                      (''value'', JNum (satoshisToBTC (of_int (out_value output))))])
                   (tx_out ([demo_full_tx] ! i))))] \<and>
              (\<forall>e. latestblock demo_up_full_tip_down
                     (Suc (length ([]::request list)) + fetches (take i [demo_full_tx])) = Inl e \<longrightarrow> c = 0))"
    by blast+
  from T U have TU: "resp_status (fst (user_transactions demo_db demo_up_full_tip_down [] ''u'' 10 0)) = 200"
    and LU: "length (listed ''transactions''
        (fst (user_transactions demo_db demo_up_full_tip_down [] ''u'' 10 0))) = length [demo_full_tx]"
    and EU: "\<forall>i. i < length [demo_full_tx] \<longrightarrow>
         (\<exists>c. listed ''transactions''
                (fst (user_transactions demo_db demo_up_full_tip_down [] ''u'' 10 0)) ! i =
                JObj [(''hash'', JStr (tx_hash ([demo_full_tx] ! i))),
                 (''block_height'', (case tx_block_height ([demo_full_tx] ! i) of None \<Rightarrow> JNull | Some h \<Rightarrow> JNum (of_int h))),
                 (''time'', JNum (of_int (tx_time ([demo_full_tx] ! i)))),
                 (''fee'', (case tx_fee ([demo_full_tx] ! i) of None \<Rightarrow> JNum 0
                     | Some f \<Rightarrow> if f = 0 then JNum 0 else JNum (satoshisToBTC (of_int f)))),
                 (''confirmations'', JNum (of_int c)),
                 (''inputs'', JArr (map (\<lambda>input. JObj [(''prev_out'',
                     (case in_prev_out input of None \<Rightarrow> JNull
                      | Some po \<Rightarrow> JObj [(''addr'', (case po_addr po of None \<Rightarrow> JNull | Some s \<Rightarrow> JStr s)),
                                        (''value'', JNum (satoshisToBTC (of_int (po_value po))))]))])
                   (tx_inputs ([demo_full_tx] ! i)))),
                 (''out'', JArr (map (\<lambda>output. JObj
                     [(''addr'', (case out_addr output of None \<Rightarrow> JNull | Some s \<Rightarrow> JStr s)),
                      (''value'', JNum (satoshisToBTC (of_int (out_value output))))])
                   (tx_out ([demo_full_tx] ! i))))] \<and>
              (\<forall>e. latestblock demo_up_full_tip_down
                     (Suc (length ([]::request list)) + fetches (take i [demo_full_tx])) = Inl e \<longrightarrow> c = 0))"
    by blast+
  have one: "xs = [x]" if "length xs = length [demo_full_tx]" "xs ! 0 = x" for xs :: "json list" and x
    using that by (cases xs) simp_all
  have "listed ''transactions'' (fst (address_transactions demo_db demo_up_full_tip_down [] ''u'' ''A'' 10 0)) ! 0
      = hd ?E"
    using EA[rule_format, of 0] by (simp add: tip demo_full_tx_def satoshisToBTC_exact)
  with LA have FA: "listed ''transactions''
      (fst (address_transactions demo_db demo_up_full_tip_down [] ''u'' ''A'' 10 0)) = ?E"
    by (simp add: one)
  have "listed ''transactions'' (fst (user_transactions demo_db demo_up_full_tip_down [] ''u'' 10 0)) ! 0
      = hd ?E"
    using EU[rule_format, of 0] by (simp add: tip demo_full_tx_def satoshisToBTC_exact)
  with LU have FU: "listed ''transactions''
      (fst (user_transactions demo_db demo_up_full_tip_down [] ''u'' 10 0)) = ?E"
    by (simp add: one)
  from T tip have C: "calculateConfirmations demo_up_full_tip_down [] 100 = (0, [LatestBlock])"
    by simp
  from A U TA TU FA FU C tip show ?thesis by simp
qed

text \<open>
  C10. A transaction whose \<open>block_height\<close> is 0 is reported with 0 confirmations and issues
  no chain-tip request, in the callback of the \<open>wallets.js\<close> views, in both views, and in
  \<open>processTransaction\<close>: the height is falsy and is not counted by \<open>fetches\<close>.
\<close>

theorem zero_height_reports_zero_confirmations:
  assumes "tx_block_height t = Some 0"
  shows "get_field ''confirmations'' (fst (formatTransaction up reqs t)) = Some (json_int 0) \<and>
         snd (formatTransaction up reqs t) = reqs \<and>
         pt_confirmations (fst (processTransaction up reqs t address)) = 0 \<and>
         snd (processTransaction up reqs t address) = reqs \<and>
         \<not> truthy (tx_block_height t) \<and>
         fetches (t # ts) = fetches ts \<and>
         (getAddressByUserAndAddress d u a = Inr (Some r) \<and>
          rawaddr up (length reqs) a (min limit 50) offset = Inr ainfo \<and>
          ai_txs ainfo = Some txs \<and> i < length txs \<and> txs ! i = t \<longrightarrow>
            confirmations_at (fst (address_transactions d up reqs u a limit offset)) i
              = Some (json_int 0)) \<and>
         (getUserAddresses d u = Inr addrs \<and> addrs \<noteq> [] \<and>
          multiaddr up (length reqs) (join_bar (map ar_address addrs)) (min limit 100) offset
            = Inr minfo \<and>
          mi_txs minfo = Some txs \<and> i < length txs \<and> txs ! i = t \<longrightarrow>
            confirmations_at (fst (user_transactions d up reqs u limit offset)) i
              = Some (json_int 0))"
proof (intro conjI impI)
  show "get_field ''confirmations'' (fst (formatTransaction up reqs t)) = Some (json_int 0)"
    using assms by (simp add: formatTransaction_confirmations)
  show "snd (formatTransaction up reqs t) = reqs"
    using assms by (simp add: formatTransaction_reqs truthy_def)
  show "pt_confirmations (fst (processTransaction up reqs t address)) = 0"
    using assms by (simp add: processTransaction_def case_prod_unfold)
  show "snd (processTransaction up reqs t address) = reqs"
    using assms by (simp add: processTransaction_def case_prod_unfold)
  show "\<not> truthy (tx_block_height t)" using assms by (simp add: truthy_def)
  show "fetches (t # ts) = fetches ts" using assms by (simp add: fetches_simps truthy_def)
next
  assume h: "getAddressByUserAndAddress d u a = Inr (Some r) \<and>
          rawaddr up (length reqs) a (min limit 50) offset = Inr ainfo \<and>
          ai_txs ainfo = Some txs \<and> i < length txs \<and> txs ! i = t"
  then have h1: "getAddressByUserAndAddress d u a = Inr (Some r)"
    and h2: "rawaddr up (length reqs) a (min limit 50) offset = Inr ainfo"
    and h3: "ai_txs ainfo = Some txs" and h4: "i < length txs" and h5: "txs ! i = t" by simp_all
  show "confirmations_at (fst (address_transactions d up reqs u a limit offset)) i
              = Some (json_int 0)"
    using assms h5
    by (simp add: confirmations_at_def address_transactions_listing(1)[OF h1 h2 h3]
          confirmations_nth[OF h4])
next
  assume h: "getUserAddresses d u = Inr addrs \<and> addrs \<noteq> [] \<and>
          multiaddr up (length reqs) (join_bar (map ar_address addrs)) (min limit 100) offset
            = Inr minfo \<and>
          mi_txs minfo = Some txs \<and> i < length txs \<and> txs ! i = t"
  then have h1: "getUserAddresses d u = Inr addrs" and h2: "addrs \<noteq> []"
    and h3: "multiaddr up (length reqs) (join_bar (map ar_address addrs)) (min limit 100) offset
               = Inr minfo"
    and h4: "mi_txs minfo = Some txs" and h5: "i < length txs" and h6: "txs ! i = t" by simp_all
  show "confirmations_at (fst (user_transactions d up reqs u limit offset)) i
              = Some (json_int 0)"
    using assms h6
    by (simp add: confirmations_at_def user_transactions_listing(1)[OF h1 h2 h3 h4]
          confirmations_nth[OF h5])
qed

text \<open>C10 at the example explorer, whose fourth transaction has height 0, under the tip 105.\<close>

theorem zero_height_reports_zero_confirmations_witness:
  "tx_block_height (demo_tx (Some 0)) = Some 0 \<and>
   getAddressByUserAndAddress demo_db ''u'' ''A'' = Inr (Some demo_record) \<and>
   rawaddr demo_up (length ([]::request list)) ''A'' (min 10 50) 0
     = Inr \<lparr>ai_balance = demo_balance, ai_txs = Some demo_txs\<rparr> \<and>
   getUserAddresses demo_db ''u'' = Inr demo_addrs \<and> demo_addrs \<noteq> [] \<and>
   multiaddr demo_up (length ([]::request list)) (join_bar (map ar_address demo_addrs)) (min 10 100) 0
     = Inr \<lparr>mi_addresses = [], mi_txs = Some demo_txs\<rparr> \<and>
   (3::nat) < length demo_txs \<and> demo_txs ! 3 = demo_tx (Some 0) \<and>
   latestblock demo_up 0 = Inr \<lparr>height = 105, block_hash = ''tip'', block_time = 0\<rparr> \<and>
   get_field ''confirmations'' (fst (formatTransaction demo_up [] (demo_tx (Some 0))))
     = Some (json_int 0) \<and>
   snd (formatTransaction demo_up [] (demo_tx (Some 0))) = [] \<and>
   pt_confirmations (fst (processTransaction demo_up [] (demo_tx (Some 0)) ''A'')) = 0 \<and>
   snd (processTransaction demo_up [] (demo_tx (Some 0)) ''A'') = [] \<and>
   confirmations_at (fst (address_transactions demo_db demo_up [] ''u'' ''A'' 10 0)) 3
     = Some (json_int 0) \<and>
   confirmations_at (fst (user_transactions demo_db demo_up [] ''u'' 10 0)) 3
     = Some (json_int 0)"
  using zero_height_reports_zero_confirmations[of "demo_tx (Some 0)" demo_up "[]" "''A''" "[]"
      demo_db "''u''" "''A''" demo_record 10 0
      "\<lparr>ai_balance = demo_balance, ai_txs = Some demo_txs\<rparr>" demo_txs 3 demo_addrs
      "\<lparr>mi_addresses = [], mi_txs = Some demo_txs\<rparr>"]
  by (simp add: demo_defs)

lemma sync_user_balances_ok:
  assumes "getUserAddresses d u = Inr addrs" and "addrs \<noteq> []"
    and "balance up (length reqs) (join_bar (map ar_address addrs)) = Inr m"
  shows "sync_user_balances d up reqs now u =
     (ok_response (JObj
        [(''user_id'', JStr u),
         (''total_addresses'', json_int (int (length addrs))),
         (''balances'', JArr (map (balance_result m) addrs)),
         (''fetched_at'', JStr now)]),
      reqs @ [Balance (join_bar (map ar_address addrs))])"
  using assms by (simp add: sync_user_balances_def getMultipleBalances_def)

text \<open>
  C7. When the balance fetch of the balances-only view succeeds with the mapping \<open>m\<close>, the
  view answers 200 and lists one entry for every stored address, in order: the entry holds
  the address, its label, and under \<open>balance\<close> either \<open>null\<close>, when \<open>m\<close> has no data for the
  address, or the snapshot of that address with \<open>final_balance\<close>, \<open>total_received\<close> and
  \<open>total_sent\<close> converted by \<open>satoshisToBTC\<close> and \<open>n_tx\<close> as it is, which is not \<open>null\<close>.
\<close>

theorem balances_view_null_for_unknown:
  assumes "getUserAddresses d u = Inr addrs" and "addrs \<noteq> []"
    and "balance up (length reqs) (join_bar (map ar_address addrs)) = Inr m"
  shows "resp_status (fst (sync_user_balances d up reqs now u)) = 200 \<and>
     get_field ''success'' (resp_body (fst (sync_user_balances d up reqs now u))) = Some (JBool True) \<and>
     length (listed ''balances'' (fst (sync_user_balances d up reqs now u))) = length addrs \<and>
     (\<forall>i < length addrs.
        get_field ''address'' (listed ''balances'' (fst (sync_user_balances d up reqs now u)) ! i)
          = Some (JStr (ar_address (addrs ! i))) \<and>
        (m (ar_address (addrs ! i)) = None \<longrightarrow>
           get_field ''balance'' (listed ''balances'' (fst (sync_user_balances d up reqs now u)) ! i)
             = Some JNull) \<and>
        (\<forall>b. m (ar_address (addrs ! i)) = Some b \<longrightarrow>
           get_field ''balance'' (listed ''balances'' (fst (sync_user_balances d up reqs now u)) ! i)
             = Some (balance_json b)) \<and>
        (\<forall>b. m (ar_address (addrs ! i)) = Some b \<longrightarrow>
           get_field ''balance'' (listed ''balances'' (fst (sync_user_balances d up reqs now u)) ! i)
             = Some (JObj [(''final_balance'', JNum (satoshisToBTC (of_int (final_balance b)))),
                           (''total_received'', JNum (satoshisToBTC (of_int (total_received b)))),
                           (''total_sent'', JNum (satoshisToBTC (of_int (total_sent b)))),
                           (''n_tx'', JNum (of_int (n_tx b)))]) \<and>
           get_field ''balance'' (listed ''balances'' (fst (sync_user_balances d up reqs now u)) ! i)
             \<noteq> Some JNull) \<and>
        listed ''balances'' (fst (sync_user_balances d up reqs now u)) ! i =
          JObj [(''address'', JStr (ar_address (addrs ! i))),
                (''label'', (case ar_label (addrs ! i) of None \<Rightarrow> JNull | Some l \<Rightarrow> JStr l)),
                (''balance'',
                   (case m (ar_address (addrs ! i)) of
                      None \<Rightarrow> JNull
                    | Some b \<Rightarrow>
                        JObj [(''final_balance'', JNum (satoshisToBTC (of_int (final_balance b)))),
                              (''total_received'', JNum (satoshisToBTC (of_int (total_received b)))),
                              (''total_sent'', JNum (satoshisToBTC (of_int (total_sent b)))),
                              (''n_tx'', JNum (of_int (n_tx b)))]))])"
  by (simp add: sync_user_balances_ok[OF assms] ok_response_def listed_def data_field_def
        balance_result_def balance_json_def json_int_def json_opt_str_def split: option.splits)

text \<open>
  C7 for the addresses \<open>A\<close> and \<open>B\<close> with upstream data for \<open>A\<close> alone: \<open>A\<close> is listed
  with its snapshot (50, 50, 0 and one transaction), \<open>B\<close> with \<open>null\<close>.
\<close>

theorem balances_view_null_for_unknown_witness:
  "getUserAddresses demo_db ''u'' = Inr demo_addrs \<and> demo_addrs \<noteq> [] \<and>
   balance demo_up (length ([]::request list)) (join_bar (map ar_address demo_addrs))
     = Inr [''A'' \<mapsto> demo_balance] \<and>
   map ar_address demo_addrs = [''A'', ''B''] \<and>
   [''A'' \<mapsto> demo_balance] ''A'' = Some demo_balance \<and>
   [''A'' \<mapsto> demo_balance] ''B'' = None \<and>
   resp_status (fst (sync_user_balances demo_db demo_up [] ''now'' ''u'')) = 200 \<and>
   listed ''balances'' (fst (sync_user_balances demo_db demo_up [] ''now'' ''u''))
     = [JObj [(''address'', JStr ''A''), (''label'', JNull),
              (''balance'', JObj [(''final_balance'', JNum 50), (''total_received'', JNum 50),
                                  (''total_sent'', JNum 0), (''n_tx'', JNum 1)])],
        JObj [(''address'', JStr ''B''), (''label'', JNull), (''balance'', JNull)]]"
proof -
  have h: "getUserAddresses demo_db ''u'' = Inr demo_addrs" "demo_addrs \<noteq> []"
    "balance demo_up (length ([]::request list)) (join_bar (map ar_address demo_addrs))
       = Inr [''A'' \<mapsto> demo_balance]"
    by (simp_all add: demo_defs)
  note T = balances_view_null_for_unknown[OF h, of "''now''"]
  let ?L = "listed ''balances'' (fst (sync_user_balances demo_db demo_up [] ''now'' ''u''))"
  from T have st: "resp_status (fst (sync_user_balances demo_db demo_up [] ''now'' ''u'')) = 200"
    and len: "length ?L = length demo_addrs" by blast+
  from T have e0: "?L ! 0 = JObj [(''address'', JStr ''A''), (''label'', JNull),
              (''balance'', JObj [(''final_balance'', JNum 50), (''total_received'', JNum 50),
                                  (''total_sent'', JNum 0), (''n_tx'', JNum 1)])]"
    by (simp add: demo_defs satoshisToBTC_exact)
  from T have e1: "?L ! 1 = JObj [(''address'', JStr ''B''), (''label'', JNull), (''balance'', JNull)]"
    by (simp add: demo_defs)
  have two: "xs = [x, y]" if "length xs = length demo_addrs" "xs ! 0 = x" "xs ! 1 = y"
    for xs :: "json list" and x y
  proof (cases xs)
    case Nil
    then show ?thesis using that(1) by (simp add: demo_defs)
  next
    case (Cons v vs)
    then show ?thesis using that by (cases vs) (simp_all add: demo_defs)
  qed
  from h st two[OF len e0 e1] show ?thesis by (simp add: demo_defs)
qed

section \<open>Properties of the AddressValidator\<close>

lemma char_eq_code: "c = d \<longleftrightarrow> (of_char c :: nat) = of_char d"
  by simp

lemma base58_alphabet_in_class: "\<forall>c \<in> set base58_alphabet. in_class base58_class c"
  by (simp add: base58_alphabet_def in_class_def base58_class_def)

lemma range_members:
  fixes n :: nat
  shows "97 \<le> n \<Longrightarrow> n \<le> 107 \<Longrightarrow> n \<in> {97, 98, 99, 100, 101, 102, 103, 104, 105, 106, 107}"
    and "109 \<le> n \<Longrightarrow> n \<le> 122 \<Longrightarrow>
           n \<in> {109, 110, 111, 112, 113, 114, 115, 116, 117, 118, 119, 120, 121, 122}"
    and "65 \<le> n \<Longrightarrow> n \<le> 72 \<Longrightarrow> n \<in> {65, 66, 67, 68, 69, 70, 71, 72}"
    and "74 \<le> n \<Longrightarrow> n \<le> 78 \<Longrightarrow> n \<in> {74, 75, 76, 77, 78}"
    and "80 \<le> n \<Longrightarrow> n \<le> 90 \<Longrightarrow> n \<in> {80, 81, 82, 83, 84, 85, 86, 87, 88, 89, 90}"
    and "49 \<le> n \<Longrightarrow> n \<le> 57 \<Longrightarrow> n \<in> {49, 50, 51, 52, 53, 54, 55, 56, 57}"
    and "48 \<le> n \<Longrightarrow> n \<le> 57 \<Longrightarrow> n \<in> {48, 49, 50, 51, 52, 53, 54, 55, 56, 57}"
    and "97 \<le> n \<Longrightarrow> n \<le> 108 \<Longrightarrow>
           n \<in> {97, 98, 99, 100, 101, 102, 103, 104, 105, 106, 107, 108}"
  by (simp_all only: insert_iff empty_iff) presburger+


lemma base58_class_iff: "in_class base58_class c \<longleftrightarrow> c \<in> set base58_alphabet"
proof
  define n :: nat where "n = of_char c"
  have mem: "c \<in> set base58_alphabet \<longleftrightarrow>
      n \<in> {49, 50, 51, 52, 53, 54, 55, 56, 57, 65, 66, 67, 68, 69,
           70, 71, 72, 74, 75, 76, 77, 78, 80, 81, 82, 83, 84, 85,
           86, 87, 88, 89, 90, 97, 98, 99, 100, 101, 102, 103, 104, 105,
           106, 107, 109, 110, 111, 112, 113, 114, 115, 116, 117, 118, 119, 120,
           121, 122}"
    unfolding base58_alphabet_def n_def set_simps insert_iff empty_iff
    by (simp only: char_eq_code[of c]) simp
  assume "in_class base58_class c"
  then have "(97 \<le> n \<and> n \<le> 107) \<or> (109 \<le> n \<and> n \<le> 122) \<or> (65 \<le> n \<and> n \<le> 72) \<or>
      (74 \<le> n \<and> n \<le> 78) \<or> (80 \<le> n \<and> n \<le> 90) \<or> (49 \<le> n \<and> n \<le> 57)"
    by (simp add: in_class_def base58_class_def n_def)
  then consider (a) "97 \<le> n" "n \<le> 107" | (b) "109 \<le> n" "n \<le> 122" | (c) "65 \<le> n" "n \<le> 72"
    | (d) "74 \<le> n" "n \<le> 78" | (e) "80 \<le> n" "n \<le> 90" | (f) "49 \<le> n" "n \<le> 57"
    by blast
  then show "c \<in> set base58_alphabet"
  proof cases
    case a from range_members(1)[OF a] show ?thesis unfolding mem insert_iff empty_iff by blast
  next
    case b from range_members(2)[OF b] show ?thesis unfolding mem insert_iff empty_iff by blast
  next
    case c from range_members(3)[OF c] show ?thesis unfolding mem insert_iff empty_iff by blast
  next
    case d from range_members(4)[OF d] show ?thesis unfolding mem insert_iff empty_iff by blast
  next
    case e from range_members(5)[OF e] show ?thesis unfolding mem insert_iff empty_iff by blast
  next
    case f from range_members(6)[OF f] show ?thesis unfolding mem insert_iff empty_iff by blast
  qed
next
  assume "c \<in> set base58_alphabet"
  then show "in_class base58_class c" using base58_alphabet_in_class by blast
qed

lemma lower_alnum_alphabet_in_class: "\<forall>c \<in> set lower_alnum_alphabet. in_class lower_alnum_class c"
  by (simp add: lower_alnum_alphabet_def in_class_def lower_alnum_class_def)

lemma lower_alnum_class_iff:
  "in_class lower_alnum_class c \<longleftrightarrow> c \<in> set lower_alnum_alphabet"
proof
  define n :: nat where "n = of_char c"
  have mem: "c \<in> set lower_alnum_alphabet \<longleftrightarrow>
      n \<in> {97, 98, 99, 100, 101, 102, 103, 104, 105, 106, 107, 108} \<or>
      n \<in> {109, 110, 111, 112, 113, 114, 115, 116, 117, 118, 119, 120, 121, 122} \<or>
      n \<in> {48, 49, 50, 51, 52, 53, 54, 55, 56, 57}"
    unfolding lower_alnum_alphabet_def n_def set_simps insert_iff empty_iff
    by (simp only: char_eq_code[of c]) simp
  assume "in_class lower_alnum_class c"
  then have "(97 \<le> n \<and> n \<le> 122) \<or> (48 \<le> n \<and> n \<le> 57)"
    by (simp add: in_class_def lower_alnum_class_def n_def)
  then consider (a) "97 \<le> n" "n \<le> 108" | (b) "109 \<le> n" "n \<le> 122" | (c) "48 \<le> n" "n \<le> 57"
    by linarith
  then show "c \<in> set lower_alnum_alphabet"
  proof cases
    case a from range_members(8)[OF a] show ?thesis unfolding mem by blast
  next
    case b from range_members(2)[OF b] show ?thesis unfolding mem by blast
  next
    case c from range_members(7)[OF c] show ?thesis unfolding mem by blast
  qed
next
  assume "c \<in> set lower_alnum_alphabet"
  then show "in_class lower_alnum_class c" using lower_alnum_alphabet_in_class by blast
qed

lemma literal_class_iff: "in_class [(x, x)] c \<longleftrightarrow> c = x"
proof -
  have "in_class [(x, x)] c \<longleftrightarrow>
      (of_char x :: nat) \<le> of_char c \<and> (of_char c :: nat) \<le> of_char x"
    by (simp add: in_class_def)
  also have "\<dots> \<longleftrightarrow> (of_char c :: nat) = of_char x" by (rule iffI) (erule conjE, erule (1) antisym[symmetric], simp)
  also have "\<dots> \<longleftrightarrow> c = x" by (rule of_char_eq_iff)
  finally show ?thesis .
qed

lemma bech32_subset_lower_alnum: "set bech32_alphabet \<subseteq> set lower_alnum_alphabet"
  by (simp add: bech32_alphabet_def lower_alnum_alphabet_def)

lemma matches_last:
  "matches [(cls, lo, hi)] s \<longleftrightarrow> lo \<le> length s \<and> length s \<le> hi \<and> list_all (in_class cls) s"
proof -
  have "matches [(cls, lo, hi)] s \<longleftrightarrow>
      (\<exists>k \<in> set [lo ..< Suc hi]. k \<le> length s \<and> list_all (in_class cls) (take k s) \<and> drop k s = [])"
    by (simp add: list_ex_iff)
  also have "\<dots> \<longleftrightarrow> lo \<le> length s \<and> length s \<le> hi \<and> list_all (in_class cls) s"
  proof
    assume "\<exists>k \<in> set [lo ..< Suc hi]. k \<le> length s \<and> list_all (in_class cls) (take k s) \<and> drop k s = []"
    then obtain k where k: "lo \<le> k" "k \<le> hi" "k \<le> length s"
        "list_all (in_class cls) (take k s)" "drop k s = []" by auto
    then have "k = length s" by simp
    with k show "lo \<le> length s \<and> length s \<le> hi \<and> list_all (in_class cls) s" by simp
  next
    assume "lo \<le> length s \<and> length s \<le> hi \<and> list_all (in_class cls) s"
    then show "\<exists>k \<in> set [lo ..< Suc hi]. k \<le> length s \<and> list_all (in_class cls) (take k s) \<and> drop k s = []"
      by (intro bexI[of _ "length s"]) auto
  qed
  finally show ?thesis .
qed

lemma matches_one:
  "matches ((cls, 1, 1) # rest) s \<longleftrightarrow>
     (\<exists>c s'. s = c # s' \<and> in_class cls c \<and> matches rest s')"
  by (cases s) simp_all


lemma in_class_Cons: "in_class (r # rs) c \<longleftrightarrow> in_class [r] c \<or> in_class rs c"
  by (simp add: in_class_def)

lemma in_class_Nil: "\<not> in_class [] c"
  by (simp add: in_class_def)

lemma list_all_base58:
  "list_all (in_class base58_class) s = list_all (\<lambda>c. c \<in> set base58_alphabet) s"
  by (simp add: list_all_iff base58_class_iff)

lemma list_all_lower_alnum:
  "list_all (in_class lower_alnum_class) s = list_all (\<lambda>c. c \<in> set lower_alnum_alphabet) s"
  by (simp add: list_all_iff lower_alnum_class_iff)

lemma family_one_char:
  "in_family ([x] # ps) alphabet lo hi a \<longleftrightarrow>
     (\<exists>s'. a = x # s' \<and> lo \<le> length s' \<and> length s' \<le> hi \<and>
           list_all (\<lambda>c. c \<in> set alphabet) s') \<or> in_family ps alphabet lo hi a"
  by (cases a) (auto simp: in_family_def)

lemma family_none: "\<not> in_family [] alphabet lo hi a"
  by (simp add: in_family_def)

lemma family_three_chars:
  "in_family [[x, y, z]] alphabet lo hi a \<longleftrightarrow>
     (\<exists>s'. a = x # y # z # s' \<and> lo \<le> length s' \<and> length s' \<le> hi \<and>
           list_all (\<lambda>c. c \<in> set alphabet) s')"
proof (cases a)
  case Nil
  then show ?thesis by (simp add: in_family_def)
next
  case a1: (Cons c1 r1)
  show ?thesis
  proof (cases r1)
    case Nil
    then show ?thesis using a1 by (simp add: in_family_def)
  next
    case a2: (Cons c2 r2)
    show ?thesis
    proof (cases r2)
      case Nil
      then show ?thesis using a1 a2 by (simp add: in_family_def)
    next
      case (Cons c3 r3)
      then show ?thesis using a1 a2 by (auto simp: in_family_def)
    qed
  qed
qed

lemma first_class_two: "in_class [(x, x), (y, y)] c \<longleftrightarrow> c = x \<or> c = y"
  using in_class_Cons[of "(x, x)" "[(y, y)]" c] by (simp only: literal_class_iff)

lemma first_class_three: "in_class [(x, x), (y, y), (z, z)] c \<longleftrightarrow> c = x \<or> c = y \<or> c = z"
  using in_class_Cons[of "(x, x)" "[(y, y), (z, z)]" c] by (simp only: literal_class_iff first_class_two)

lemma legacy_iff:
  "matches legacyPattern a \<longleftrightarrow> in_family [''1'', ''3''] base58_alphabet 25 34 a"
proof -
  have L: "matches legacyPattern a \<longleftrightarrow>
      (\<exists>c s'. a = c # s' \<and> (c = CHR ''1'' \<or> c = CHR ''3'') \<and>
          25 \<le> length s' \<and> length s' \<le> 34 \<and> list_all (\<lambda>c. c \<in> set base58_alphabet) s')"
    by (simp only: legacyPattern_def matches_one matches_last first_class_two list_all_base58)
  have R: "in_family [''1'', ''3''] base58_alphabet 25 34 a \<longleftrightarrow>
      (\<exists>s'. a = CHR ''1'' # s' \<and> 25 \<le> length s' \<and> length s' \<le> 34 \<and>
            list_all (\<lambda>c. c \<in> set base58_alphabet) s') \<or>
      (\<exists>s'. a = CHR ''3'' # s' \<and> 25 \<le> length s' \<and> length s' \<le> 34 \<and>
            list_all (\<lambda>c. c \<in> set base58_alphabet) s')"
    by (simp only: family_one_char family_none simp_thms)
  show ?thesis unfolding L R by (rule iffI; elim exE conjE disjE; simp)
qed


lemma testnet_iff:
  "matches testnetPattern a \<longleftrightarrow> in_family [''2'', ''m'', ''n''] base58_alphabet 25 34 a"
proof -
  have L: "matches testnetPattern a \<longleftrightarrow>
      (\<exists>c s'. a = c # s' \<and> (c = CHR ''2'' \<or> c = CHR ''m'' \<or> c = CHR ''n'') \<and>
          25 \<le> length s' \<and> length s' \<le> 34 \<and> list_all (\<lambda>c. c \<in> set base58_alphabet) s')"
    by (simp only: testnetPattern_def matches_one matches_last first_class_three list_all_base58)
  have R: "in_family [''2'', ''m'', ''n''] base58_alphabet 25 34 a \<longleftrightarrow>
      (\<exists>s'. a = CHR ''2'' # s' \<and> 25 \<le> length s' \<and> length s' \<le> 34 \<and>
            list_all (\<lambda>c. c \<in> set base58_alphabet) s') \<or>
      (\<exists>s'. a = CHR ''m'' # s' \<and> 25 \<le> length s' \<and> length s' \<le> 34 \<and>
            list_all (\<lambda>c. c \<in> set base58_alphabet) s') \<or>
      (\<exists>s'. a = CHR ''n'' # s' \<and> 25 \<le> length s' \<and> length s' \<le> 34 \<and>
            list_all (\<lambda>c. c \<in> set base58_alphabet) s')"
    by (simp only: family_one_char family_none simp_thms)
  show ?thesis unfolding L R by (rule iffI; elim exE conjE disjE; simp)
qed

lemma three_literals:
  "matches [lit x, lit y, lit z, (cls, lo, hi)] a \<longleftrightarrow>
     (\<exists>s'. a = x # y # z # s' \<and> lo \<le> length s' \<and> length s' \<le> hi \<and> list_all (in_class cls) s')"
proof -
  have "matches [lit x, lit y, lit z, (cls, lo, hi)] a \<longleftrightarrow>
      (\<exists>c1 s1. a = c1 # s1 \<and> c1 = x \<and>
         (\<exists>c2 s2. s1 = c2 # s2 \<and> c2 = y \<and>
            (\<exists>c3 s3. s2 = c3 # s3 \<and> c3 = z \<and>
               lo \<le> length s3 \<and> length s3 \<le> hi \<and> list_all (in_class cls) s3)))"
    by (simp only: lit_def matches_one matches_last literal_class_iff)
  also have "\<dots> \<longleftrightarrow>
     (\<exists>s'. a = x # y # z # s' \<and> lo \<le> length s' \<and> length s' \<le> hi \<and> list_all (in_class cls) s')"
    by (rule iffI; elim exE conjE; simp)
  finally show ?thesis .
qed

lemma segwit_iff:
  "matches segwitPattern a \<longleftrightarrow> in_family [''bc1''] lower_alnum_alphabet 39 59 a"
  by (simp only: segwitPattern_def three_literals family_three_chars list_all_lower_alnum)

lemma testnet_segwit_iff:
  "matches testnetSegwitPattern a \<longleftrightarrow> in_family [''tb1''] lower_alnum_alphabet 39 59 a"
  by (simp only: testnetSegwitPattern_def three_literals family_three_chars list_all_lower_alnum)

lemma isValid_iff_families: "isValidBitcoinAddress a \<longleftrightarrow> pattern_families a"
  by (simp only: isValidBitcoinAddress_def pattern_families_def legacy_iff segwit_iff
        testnet_iff testnet_segwit_iff)

lemma family_alphabet_mono:
  assumes "set alphabet \<subseteq> set alphabet'" "in_family ps alphabet lo hi a"
  shows "in_family ps alphabet' lo hi a"
  using assms by (auto simp: in_family_def list_ex_iff list_all_iff)

lemma spec_families_accepted: "spec_families a \<Longrightarrow> pattern_families a"
  unfolding spec_families_def pattern_families_def
  using family_alphabet_mono[OF bech32_subset_lower_alnum] by blast

lemmas family_eval = pattern_families_def spec_families_def in_family_def
  base58_alphabet_def bech32_alphabet_def lower_alnum_alphabet_def

text \<open>
  C8, amended. \<open>isValidBitcoinAddress\<close> accepts exactly the four families of its patterns:
  \<open>1\<close> or \<open>3\<close> and 25 to 34 base58 characters; \<open>bc1\<close> and 39 to 59 lower-case letters or
  digits; \<open>2\<close>, \<open>m\<close> or \<open>n\<close> and 25 to 34 base58 characters; \<open>tb1\<close> and 39 to 59 lower-case
  letters or digits. Every string of the families with bech32 bodies is among them, so
  every \<open>bc1\<close> string with a bech32 body of 39 to 59 characters is accepted; the genesis
  address is accepted; \<open>notanaddress\<close> and the empty string are rejected. The function is
  total and returns a truth value, nothing else.
\<close>

theorem validator_accepts_pattern_families:
  "(isValidBitcoinAddress a \<longleftrightarrow> pattern_families a) \<and>
   (spec_families a \<longrightarrow> isValidBitcoinAddress a) \<and>
   (in_family [''bc1''] bech32_alphabet 39 59 a \<longrightarrow> isValidBitcoinAddress a) \<and>
   isValidBitcoinAddress ''1A1zP1eP5QGefi2DMPTfTL5SLmv7DivfNa'' \<and>
   \<not> isValidBitcoinAddress ''notanaddress'' \<and>
   \<not> isValidBitcoinAddress ''''"
proof (intro conjI impI)
  show "isValidBitcoinAddress a \<longleftrightarrow> pattern_families a" by (rule isValid_iff_families)
  show "isValidBitcoinAddress a" if "spec_families a"
    using that spec_families_accepted by (simp only: isValid_iff_families)
  show "isValidBitcoinAddress a" if "in_family [''bc1''] bech32_alphabet 39 59 a"
  proof -
    from that have "spec_families a" by (simp only: spec_families_def simp_thms)
    then show ?thesis using spec_families_accepted by (simp only: isValid_iff_families)
  qed
  show "isValidBitcoinAddress ''1A1zP1eP5QGefi2DMPTfTL5SLmv7DivfNa''"
    unfolding isValid_iff_families by (simp add: family_eval)
  show "\<not> isValidBitcoinAddress ''notanaddress''"
    unfolding isValid_iff_families by (simp add: family_eval)
  show "\<not> isValidBitcoinAddress ''''"
    unfolding isValid_iff_families by (simp add: family_eval)
qed

text \<open>
  C8, as the specification states it: exactly the families with bech32 bodies. The
  validator accepts \<open>bc1\<close> followed by 39 times \<open>b\<close>, and \<open>b\<close> is not a bech32 character.
\<close>

theorem validator_exactness_counterexample:
  "isValidBitcoinAddress ''bc1bbbbbbbbbbbbbbbbbbbbbbbbbbbbbbbbbbbbbbb'' \<and>
   \<not> spec_families ''bc1bbbbbbbbbbbbbbbbbbbbbbbbbbbbbbbbbbbbbbb''"
  unfolding isValid_iff_families by (simp add: family_eval)

text \<open>The amended C8 at a \<open>bc1\<close> address with a bech32 body of 39 characters.\<close>

theorem validator_accepts_pattern_families_witness:
  "spec_families ''bc1qar0srrr7xfkvy5l643lydnw9re59gtzzwf5mdq'' \<and>
   in_family [''bc1''] bech32_alphabet 39 59 ''bc1qar0srrr7xfkvy5l643lydnw9re59gtzzwf5mdq'' \<and>
   pattern_families ''bc1qar0srrr7xfkvy5l643lydnw9re59gtzzwf5mdq'' \<and>
   isValidBitcoinAddress ''bc1qar0srrr7xfkvy5l643lydnw9re59gtzzwf5mdq''"
proof -
  have f: "in_family [''bc1''] bech32_alphabet 39 59 ''bc1qar0srrr7xfkvy5l643lydnw9re59gtzzwf5mdq''"
    by (simp add: family_eval)
  then have s: "spec_families ''bc1qar0srrr7xfkvy5l643lydnw9re59gtzzwf5mdq''"
    by (simp only: spec_families_def simp_thms)
  from validator_accepts_pattern_families[of "''bc1qar0srrr7xfkvy5l643lydnw9re59gtzzwf5mdq''"] f s
  show ?thesis by blast
qed

end
